theory Spec2Isabelle
  imports Main
begin

section \<open>JSON documents and the decoder behind \<open>Payload\<close>\<close>

text \<open>
  \<open>PacketEvent.Data\<close> is a \<open>json.RawMessage\<close>. The byte-level scanner of
  \<open>encoding/json\<close> is not part of the repository, so a body is kept after scanning:
  either bytes that are no JSON document at all (the empty body of a packet without
  \<open>data\<close> is one), or the document they denote.  A number literal without fraction
  and exponent is \<open>JInt\<close>; any other number literal keeps its text in \<open>JFloat\<close>.
\<close>

datatype json =
    JNull
  | JBool bool
  | JInt int
  | JFloat string
  | JString string
  | JArray "json list"
  | JObject "(string \<times> json) list"

datatype RawMessage = NotJSON string | Doc json

datatype error =
    ErrorString string
  | SyntaxError
  | UnmarshalTypeError string

datatype panic =
    PanicString string
  | NilPointerDereference
  | IndexOutOfRange
  | SliceBoundsOutOfRange

subsection \<open>The structs of the packet protocol\<close>

type_synonym PacketType = string

record PacketEvent =
  pkt_ID :: string
  pkt_Type :: PacketType
  pkt_Data :: RawMessage
  pkt_Error :: string

record User =
  user_ID :: string
  user_Name :: string
  user_ServerID :: string
  user_ServerEra :: string

record Message =
  msg_ID :: string
  msg_Parent :: string
  msg_PreviousEditID :: string
  msg_Time :: int
  msg_Sender :: User
  msg_Content :: string
  msg_EncryptionKeyID :: string
  msg_Edited :: int
  msg_Deleted :: int

record PingEvent =
  ping_Time :: int
  ping_Next :: int

record PingReply =
  reply_UnixTime :: int

record SendCommand =
  send_Content :: string
  send_Parent :: string

record NickEvent =
  nick_SessionID :: string
  nick_ID :: string
  nick_From :: string
  nick_To :: string

record AuthCommand =
  auth_Type :: string
  auth_Passcode :: string

text \<open>\<open>PresenceEvent\<close> embeds \<open>*User\<close>: the pointer is nil until a member of the
  body names one of the promoted fields.\<close>

record PresenceEvent =
  pres_User :: "User option"
  pres_SessionID :: string

record BounceEvent =
  bounce_Reason :: string
  bounce_AuthOptions :: "string list"
  bounce_AgentID :: string
  bounce_IP :: string

record MsgLogEvent =
  log_Parent :: string
  log_UserID :: string
  log_UserName :: string
  log_Time :: int
  log_Content :: string

text \<open>The value of the \<open>interface{}\<close> that \<open>Payload\<close> returns: nil, the raw body,
  or a pointer to one of the structs.\<close>

datatype payload =
    PNil
  | PRaw RawMessage
  | PPingEvent PingEvent
  | PMessage Message
  | PSendCommand SendCommand
  | PNickEvent NickEvent
  | PPresenceEvent PresenceEvent
  | PPingReply PingReply
  | PAuthCommand AuthCommand
  | PBounceEvent BounceEvent

definition zeroUser :: User where
  "zeroUser = \<lparr>user_ID = [], user_Name = [], user_ServerID = [], user_ServerEra = []\<rparr>"

definition zeroMessage :: Message where
  "zeroMessage = \<lparr>msg_ID = [], msg_Parent = [], msg_PreviousEditID = [], msg_Time = 0,
     msg_Sender = zeroUser, msg_Content = [], msg_EncryptionKeyID = [], msg_Edited = 0,
     msg_Deleted = 0\<rparr>"

definition zeroPingEvent :: PingEvent where
  "zeroPingEvent = \<lparr>ping_Time = 0, ping_Next = 0\<rparr>"

definition zeroPingReply :: PingReply where
  "zeroPingReply = \<lparr>reply_UnixTime = 0\<rparr>"

definition zeroSendCommand :: SendCommand where
  "zeroSendCommand = \<lparr>send_Content = [], send_Parent = []\<rparr>"

definition zeroNickEvent :: NickEvent where
  "zeroNickEvent = \<lparr>nick_SessionID = [], nick_ID = [], nick_From = [], nick_To = []\<rparr>"

definition zeroAuthCommand :: AuthCommand where
  "zeroAuthCommand = \<lparr>auth_Type = [], auth_Passcode = []\<rparr>"

definition zeroPresenceEvent :: PresenceEvent where
  "zeroPresenceEvent = \<lparr>pres_User = None, pres_SessionID = []\<rparr>"

definition zeroBounceEvent :: BounceEvent where
  "zeroBounceEvent = \<lparr>bounce_Reason = [], bounce_AuthOptions = [], bounce_AgentID = [],
     bounce_IP = []\<rparr>"

subsection \<open>Decoding a document into a struct\<close>

text \<open>
  What \<open>json.Unmarshal\<close> does with the struct types above.  A member of the body is
  matched to a field by its tag name, an exact match first and a case-insensitive one
  otherwise (for the ASCII tag names used here the only non-ASCII letters that fold to
  them are U+017F and U+212A).  A member that names no field is skipped.  A value of
  the wrong kind leaves the field as it is and records an \<open>UnmarshalTypeError\<close>; the
  decoder goes on and reports the first recorded error at the end.  \<open>null\<close> leaves a
  field as it is.
\<close>

definition toLowerASCII :: "char \<Rightarrow> char" where
  "toLowerASCII c =
     (case map_of (zip ''ABCDEFGHIJKLMNOPQRSTUVWXYZ'' ''abcdefghijklmnopqrstuvwxyz'') c of
        Some l \<Rightarrow> l
      | None \<Rightarrow> c)"

fun foldName :: "string \<Rightarrow> string" where
  "foldName [] = []"
| "foldName [c] = [toLowerASCII c]"
| "foldName [c, d] =
     (if c = CHR 0xC5 \<and> d = CHR 0xBF then [CHR ''s'']
      else toLowerASCII c # foldName [d])"
| "foldName (c # d # e # cs) =
     (if c = CHR 0xC5 \<and> d = CHR 0xBF then CHR ''s'' # foldName (e # cs)
      else if c = CHR 0xE2 \<and> d = CHR 0x84 \<and> e = CHR 0xAA then CHR ''k'' # foldName cs
      else toLowerASCII c # foldName (d # e # cs))"

definition findField :: "string list \<Rightarrow> string \<Rightarrow> string option" where
  "findField names key =
     (case find (\<lambda>f. f = key) names of
        Some f \<Rightarrow> Some f
      | None \<Rightarrow> find (\<lambda>f. foldName f = foldName key) names)"

definition in_int64 :: "int \<Rightarrow> bool" where
  "in_int64 n \<longleftrightarrow> - (2 ^ 63) \<le> n \<and> n < 2 ^ 63"

definition saveError :: "error option \<Rightarrow> error option \<Rightarrow> error option" where
  "saveError saved e = (case saved of None \<Rightarrow> e | Some s \<Rightarrow> Some s)"

fun decString :: "string \<Rightarrow> json \<Rightarrow> string \<times> error option" where
  "decString cur (JString s) = (s, None)"
| "decString cur JNull = (cur, None)"
| "decString cur _ = (cur, Some (UnmarshalTypeError ''string''))"

text \<open>\<open>int64\<close> fields, and the \<open>int\<close> fields \<open>Edited\<close> and \<open>Deleted\<close> on a 64-bit
  platform, take an integer literal of the \<open>int64\<close> range.\<close>

fun decInt64 :: "int \<Rightarrow> json \<Rightarrow> int \<times> error option" where
  "decInt64 cur (JInt n) =
     (if in_int64 n then (n, None) else (cur, Some (UnmarshalTypeError ''int64'')))"
| "decInt64 cur JNull = (cur, None)"
| "decInt64 cur _ = (cur, Some (UnmarshalTypeError ''int64''))"

fun decStringElems :: "json list \<Rightarrow> string list \<times> error option" where
  "decStringElems [] = ([], None)"
| "decStringElems (v # vs) =
     (let (s, e) = decString [] v; (ss, es) = decStringElems vs
      in (s # ss, saveError e es))"

fun decStringSlice :: "string list \<Rightarrow> json \<Rightarrow> string list \<times> error option" where
  "decStringSlice cur (JArray vs) = decStringElems vs"
| "decStringSlice cur JNull = ([], None)"
| "decStringSlice cur _ = (cur, Some (UnmarshalTypeError ''[]string''))"

fun decodeObject ::
  "string list \<Rightarrow> (string \<Rightarrow> json \<Rightarrow> 'a \<Rightarrow> 'a \<times> error option) \<Rightarrow>
   (string \<times> json) list \<Rightarrow> 'a \<times> error option \<Rightarrow> 'a \<times> error option" where
  "decodeObject names setField [] acc = acc"
| "decodeObject names setField ((k, v) # kvs) (x, saved) =
     (case findField names k of
        None \<Rightarrow> decodeObject names setField kvs (x, saved)
      | Some f \<Rightarrow>
          (let (x', e) = setField f v x
           in decodeObject names setField kvs (x', saveError saved e)))"

definition decodeStruct ::
  "string \<Rightarrow> string list \<Rightarrow> (string \<Rightarrow> json \<Rightarrow> 'a \<Rightarrow> 'a \<times> error option) \<Rightarrow>
   'a \<Rightarrow> json \<Rightarrow> 'a \<times> error option" where
  "decodeStruct goType names setField cur j =
     (case j of
        JObject kvs \<Rightarrow> decodeObject names setField kvs (cur, None)
      | JNull \<Rightarrow> (cur, None)
      | _ \<Rightarrow> (cur, Some (UnmarshalTypeError goType)))"

definition User_fields :: "string list" where
  "User_fields = [''id'', ''name'', ''server_id'', ''server_era'']"

definition setUser :: "string \<Rightarrow> json \<Rightarrow> User \<Rightarrow> User \<times> error option" where
  "setUser f v u =
     (if f = ''id'' then (let (s, e) = decString (user_ID u) v in (u\<lparr>user_ID := s\<rparr>, e))
      else if f = ''name'' then
        (let (s, e) = decString (user_Name u) v in (u\<lparr>user_Name := s\<rparr>, e))
      else if f = ''server_id'' then
        (let (s, e) = decString (user_ServerID u) v in (u\<lparr>user_ServerID := s\<rparr>, e))
      else if f = ''server_era'' then
        (let (s, e) = decString (user_ServerEra u) v in (u\<lparr>user_ServerEra := s\<rparr>, e))
      else (u, None))"

definition Message_fields :: "string list" where
  "Message_fields = [''id'', ''parent'', ''previous_edit_id'', ''time'', ''sender'',
     ''content'', ''encryption_key_id'', ''edited'', ''deleted'']"

definition setMessage :: "string \<Rightarrow> json \<Rightarrow> Message \<Rightarrow> Message \<times> error option" where
  "setMessage f v m =
     (if f = ''id'' then (let (s, e) = decString (msg_ID m) v in (m\<lparr>msg_ID := s\<rparr>, e))
      else if f = ''parent'' then
        (let (s, e) = decString (msg_Parent m) v in (m\<lparr>msg_Parent := s\<rparr>, e))
      else if f = ''previous_edit_id'' then
        (let (s, e) = decString (msg_PreviousEditID m) v
         in (m\<lparr>msg_PreviousEditID := s\<rparr>, e))
      else if f = ''time'' then
        (let (n, e) = decInt64 (msg_Time m) v in (m\<lparr>msg_Time := n\<rparr>, e))
      else if f = ''sender'' then
        (let (u, e) = decodeStruct ''User'' User_fields setUser (msg_Sender m) v
         in (m\<lparr>msg_Sender := u\<rparr>, e))
      else if f = ''content'' then
        (let (s, e) = decString (msg_Content m) v in (m\<lparr>msg_Content := s\<rparr>, e))
      else if f = ''encryption_key_id'' then
        (let (s, e) = decString (msg_EncryptionKeyID m) v
         in (m\<lparr>msg_EncryptionKeyID := s\<rparr>, e))
      else if f = ''edited'' then
        (let (n, e) = decInt64 (msg_Edited m) v in (m\<lparr>msg_Edited := n\<rparr>, e))
      else if f = ''deleted'' then
        (let (n, e) = decInt64 (msg_Deleted m) v in (m\<lparr>msg_Deleted := n\<rparr>, e))
      else (m, None))"

definition PingEvent_fields :: "string list" where
  "PingEvent_fields = [''time'', ''next'']"

definition setPingEvent :: "string \<Rightarrow> json \<Rightarrow> PingEvent \<Rightarrow> PingEvent \<times> error option" where
  "setPingEvent f v x =
     (if f = ''time'' then
        (let (n, e) = decInt64 (ping_Time x) v in (x\<lparr>ping_Time := n\<rparr>, e))
      else if f = ''next'' then
        (let (n, e) = decInt64 (ping_Next x) v in (x\<lparr>ping_Next := n\<rparr>, e))
      else (x, None))"

definition PingReply_fields :: "string list" where
  "PingReply_fields = [''time'']"

definition setPingReply :: "string \<Rightarrow> json \<Rightarrow> PingReply \<Rightarrow> PingReply \<times> error option" where
  "setPingReply f v x =
     (if f = ''time'' then
        (let (n, e) = decInt64 (reply_UnixTime x) v in (x\<lparr>reply_UnixTime := n\<rparr>, e))
      else (x, None))"

definition SendCommand_fields :: "string list" where
  "SendCommand_fields = [''content'', ''parent'']"

definition setSendCommand ::
  "string \<Rightarrow> json \<Rightarrow> SendCommand \<Rightarrow> SendCommand \<times> error option" where
  "setSendCommand f v x =
     (if f = ''content'' then
        (let (s, e) = decString (send_Content x) v in (x\<lparr>send_Content := s\<rparr>, e))
      else if f = ''parent'' then
        (let (s, e) = decString (send_Parent x) v in (x\<lparr>send_Parent := s\<rparr>, e))
      else (x, None))"

definition NickEvent_fields :: "string list" where
  "NickEvent_fields = [''session_id'', ''id'', ''from'', ''to'']"

definition setNickEvent :: "string \<Rightarrow> json \<Rightarrow> NickEvent \<Rightarrow> NickEvent \<times> error option" where
  "setNickEvent f v x =
     (if f = ''session_id'' then
        (let (s, e) = decString (nick_SessionID x) v in (x\<lparr>nick_SessionID := s\<rparr>, e))
      else if f = ''id'' then
        (let (s, e) = decString (nick_ID x) v in (x\<lparr>nick_ID := s\<rparr>, e))
      else if f = ''from'' then
        (let (s, e) = decString (nick_From x) v in (x\<lparr>nick_From := s\<rparr>, e))
      else if f = ''to'' then
        (let (s, e) = decString (nick_To x) v in (x\<lparr>nick_To := s\<rparr>, e))
      else (x, None))"

definition AuthCommand_fields :: "string list" where
  "AuthCommand_fields = [''type'', ''passcode'']"

definition setAuthCommand ::
  "string \<Rightarrow> json \<Rightarrow> AuthCommand \<Rightarrow> AuthCommand \<times> error option" where
  "setAuthCommand f v x =
     (if f = ''type'' then
        (let (s, e) = decString (auth_Type x) v in (x\<lparr>auth_Type := s\<rparr>, e))
      else if f = ''passcode'' then
        (let (s, e) = decString (auth_Passcode x) v in (x\<lparr>auth_Passcode := s\<rparr>, e))
      else (x, None))"

text \<open>The fields of the embedded \<open>*User\<close> are promoted into the presence body; a
  member that names one of them allocates the \<open>User\<close> before its value is looked at.\<close>

definition PresenceEvent_fields :: "string list" where
  "PresenceEvent_fields = User_fields @ [''session_id'']"

definition setPresenceEvent ::
  "string \<Rightarrow> json \<Rightarrow> PresenceEvent \<Rightarrow> PresenceEvent \<times> error option" where
  "setPresenceEvent f v x =
     (if f = ''session_id'' then
        (let (s, e) = decString (pres_SessionID x) v in (x\<lparr>pres_SessionID := s\<rparr>, e))
      else if f \<in> set User_fields then
        (let (u, e) = setUser f v (case pres_User x of None \<Rightarrow> zeroUser | Some u \<Rightarrow> u)
         in (x\<lparr>pres_User := Some u\<rparr>, e))
      else (x, None))"

definition BounceEvent_fields :: "string list" where
  "BounceEvent_fields = [''reason'', ''auth_options'', ''agent_id'', ''ip'']"

definition setBounceEvent ::
  "string \<Rightarrow> json \<Rightarrow> BounceEvent \<Rightarrow> BounceEvent \<times> error option" where
  "setBounceEvent f v x =
     (if f = ''reason'' then
        (let (s, e) = decString (bounce_Reason x) v in (x\<lparr>bounce_Reason := s\<rparr>, e))
      else if f = ''auth_options'' then
        (let (ss, e) = decStringSlice (bounce_AuthOptions x) v
         in (x\<lparr>bounce_AuthOptions := ss\<rparr>, e))
      else if f = ''agent_id'' then
        (let (s, e) = decString (bounce_AgentID x) v in (x\<lparr>bounce_AgentID := s\<rparr>, e))
      else if f = ''ip'' then
        (let (s, e) = decString (bounce_IP x) v in (x\<lparr>bounce_IP := s\<rparr>, e))
      else (x, None))"

text \<open>Decoding into the struct the interface value points to.  \<open>Payload\<close> never passes
  a nil interface or a raw body as the target; they are left untouched here.\<close>

fun decodeInto :: "json \<Rightarrow> payload \<Rightarrow> payload \<times> error option" where
  "decodeInto j (PPingEvent x) =
     (let (y, e) = decodeStruct ''PingEvent'' PingEvent_fields setPingEvent x j
      in (PPingEvent y, e))"
| "decodeInto j (PMessage x) =
     (let (y, e) = decodeStruct ''Message'' Message_fields setMessage x j
      in (PMessage y, e))"
| "decodeInto j (PSendCommand x) =
     (let (y, e) = decodeStruct ''SendCommand'' SendCommand_fields setSendCommand x j
      in (PSendCommand y, e))"
| "decodeInto j (PNickEvent x) =
     (let (y, e) = decodeStruct ''NickEvent'' NickEvent_fields setNickEvent x j
      in (PNickEvent y, e))"
| "decodeInto j (PPresenceEvent x) =
     (let (y, e) = decodeStruct ''PresenceEvent'' PresenceEvent_fields setPresenceEvent x j
      in (PPresenceEvent y, e))"
| "decodeInto j (PPingReply x) =
     (let (y, e) = decodeStruct ''PingReply'' PingReply_fields setPingReply x j
      in (PPingReply y, e))"
| "decodeInto j (PAuthCommand x) =
     (let (y, e) = decodeStruct ''AuthCommand'' AuthCommand_fields setAuthCommand x j
      in (PAuthCommand y, e))"
| "decodeInto j (PBounceEvent x) =
     (let (y, e) = decodeStruct ''BounceEvent'' BounceEvent_fields setBounceEvent x j
      in (PBounceEvent y, e))"
| "decodeInto j PNil = (PNil, None)"
| "decodeInto j (PRaw r) = (PRaw r, None)"

text \<open>
  \<open>json.Unmarshal(p.Data, &payload)\<close> with \<open>payload\<close> an interface that holds a
  pointer to a struct: bytes that are no document give a syntax error and leave the
  target alone; the document \<open>null\<close> sets the interface itself to nil, without an
  error; any other document is decoded into the struct.
\<close>

definition Unmarshal :: "RawMessage \<Rightarrow> payload \<Rightarrow> payload \<times> error option" where
  "Unmarshal raw target =
     (case raw of
        NotJSON bytes \<Rightarrow> (target, Some SyntaxError)
      | Doc j \<Rightarrow> (if j = JNull then (PNil, None) else decodeInto j target))"

section \<open>The packet protocol\<close>

abbreviation PingReplyType :: PacketType where "PingReplyType \<equiv> ''ping-reply''"
abbreviation PingEventType :: PacketType where "PingEventType \<equiv> ''ping-event''"
abbreviation SendType :: PacketType where "SendType \<equiv> ''send''"
abbreviation SendEventType :: PacketType where "SendEventType \<equiv> ''send-event''"
abbreviation SendReplyType :: PacketType where "SendReplyType \<equiv> ''send-reply''"
abbreviation NickType :: PacketType where "NickType \<equiv> ''nick''"
abbreviation NickReplyType :: PacketType where "NickReplyType \<equiv> ''nick-reply''"
abbreviation NickEventType :: PacketType where "NickEventType \<equiv> ''nick-event''"
abbreviation JoinEventType :: PacketType where "JoinEventType \<equiv> ''join-event''"
abbreviation PartEventType :: PacketType where "PartEventType \<equiv> ''part-event''"
abbreviation AuthType :: PacketType where "AuthType \<equiv> ''auth''"
abbreviation BounceEventType :: PacketType where "BounceEventType \<equiv> ''bounce-event''"

definition Payload :: "PacketEvent \<Rightarrow> payload \<times> error option" where
  "Payload p =
     (if pkt_Type p = PingEventType then Unmarshal (pkt_Data p) (PPingEvent zeroPingEvent)
      else if pkt_Type p = SendEventType \<or> pkt_Type p = SendReplyType
        then Unmarshal (pkt_Data p) (PMessage zeroMessage)
      else if pkt_Type p = SendType
        then Unmarshal (pkt_Data p) (PSendCommand zeroSendCommand)
      else if pkt_Type p = NickEventType
        then Unmarshal (pkt_Data p) (PNickEvent zeroNickEvent)
      else if pkt_Type p = JoinEventType \<or> pkt_Type p = PartEventType
        then Unmarshal (pkt_Data p) (PPresenceEvent zeroPresenceEvent)
      else if pkt_Type p = PingReplyType
        then Unmarshal (pkt_Data p) (PPingReply zeroPingReply)
      else if pkt_Type p = AuthType
        then Unmarshal (pkt_Data p) (PAuthCommand zeroAuthCommand)
      else if pkt_Type p = BounceEventType
        then Unmarshal (pkt_Data p) (PBounceEvent zeroBounceEvent)
      else (PRaw (pkt_Data p), Some (ErrorString ''Unexpected packet type.'')))"

text \<open>The type tags that have a case in the switch of \<open>Payload\<close>.\<close>

definition registeredTypes :: "PacketType list" where
  "registeredTypes = [PingEventType, SendEventType, SendReplyType, SendType, NickEventType,
     JoinEventType, PartEventType, PingReplyType, AuthType, BounceEventType]"

text \<open>The typed accessors.  A failed assertion leaves \<open>se\<close> nil; \<open>GetMessagePayload\<close>
  returns it, the other two panic.  All three drop the error of \<open>Payload\<close>.\<close>

definition GetMessagePayload :: "PacketEvent \<Rightarrow> Message option" where
  "GetMessagePayload packet =
     (case fst (Payload packet) of PMessage m \<Rightarrow> Some m | _ \<Rightarrow> None)"

definition GetNickEventPayload :: "PacketEvent \<Rightarrow> panic + NickEvent" where
  "GetNickEventPayload packet =
     (case fst (Payload packet) of
        PNickEvent n \<Rightarrow> Inr n
      | _ \<Rightarrow> Inl (PanicString ''Failed to assert payload as *NickEvent''))"

definition GetPresenceEventPayload :: "PacketEvent \<Rightarrow> panic + PresenceEvent" where
  "GetPresenceEventPayload packet =
     (case fst (Payload packet) of
        PPresenceEvent d \<Rightarrow> Inr d
      | _ \<Rightarrow> Inl (PanicString ''Failed to assert payload as *PresenceEvent''))"

section \<open>Command matchers\<close>

text \<open>\<open>strings.Split(s, " ")\<close>: the pieces of \<open>s\<close> between its spaces.\<close>

fun Split :: "string \<Rightarrow> char \<Rightarrow> string list" where
  "Split [] sep = [[]]"
| "Split (c # cs) sep =
     (if c = sep then [] # Split cs sep
      else (case Split cs sep of w # ws \<Rightarrow> (c # w) # ws | [] \<Rightarrow> [[c]]))"

text \<open>Both matchers take a \<open>*Message\<close> and read \<open>payload.Content\<close> first: a nil
  pointer panics.  \<open>payload.Content[6]\<close> panics when the content has at most six
  bytes; the conjunction is evaluated left to right and stops at the first false
  conjunct.\<close>

definition isValidPingCommand :: "Message option \<Rightarrow> panic + bool" where
  "isValidPingCommand payload =
     (case payload of
        None \<Rightarrow> Inl NilPointerDereference
      | Some m \<Rightarrow>
          Inr (length (msg_Content m) \<ge> 5 \<and> take 5 (msg_Content m) = ''!ping''))"

definition isValidSeenCommand :: "Message option \<Rightarrow> panic + bool" where
  "isValidSeenCommand payload =
     (case payload of
        None \<Rightarrow> Inl NilPointerDereference
      | Some m \<Rightarrow>
          (if length (msg_Content m) \<ge> 5 \<and> take 5 (msg_Content m) = ''!seen'' then
             (if length (msg_Content m) \<le> 6 then Inl IndexOutOfRange
              else Inr (msg_Content m ! 6 = CHR ''@''
                        \<and> length (Split (msg_Content m) CHR '' '') = 2))
           else Inr False))"

section \<open>The Room and the world around a handler\<close>

text \<open>
  Modelled from the spec: the \<open>Room\<close>, whose source file is not among the sources.
  The spec gives it an outgoing send capability (\<open>SendText\<close>, \<open>sendPing\<close>), the uptime
  origin, the set of usernames pending leave with synchronized accessors, a seen-store
  (\<open>store(username, unixTimestamp) -> error\<close>, \<open>retrieve(username) -> (optional
  timestamp, error)\<close>), a message-log store (\<open>store(messageID, logRecord) -> error\<close>)
  and an error-reporting channel.  What was sent, pinged, reported and logged is kept
  in order of the calls.  A store operation fails with the store's current fault, if
  it has one, and changes nothing then.
\<close>

record Room =
  usersLeaving :: "string set"
  sent :: "(string \<times> string) list"
  pings :: "int list"
  errChan :: "error list"
  logger :: "string list"
  seenStore :: "string \<rightharpoonup> int"
  msgLogStore :: "string \<rightharpoonup> MsgLogEvent"
  uptime :: nat
  seenFault :: "error option"
  msgLogFault :: "error option"

text \<open>
  The library calls of the handlers that are neither string slicing nor JSON decoding
  are parameters: the link regular expression, the HTTP fetch with the HTML tokenizer,
  \<open>strings.TrimSpace\<close>, \<open>strconv.Atoi\<close> (its value; the handlers drop its error),
  the decimal text of an integer, and the clock arithmetic of package \<open>time\<close>.
\<close>

datatype token = ErrorToken | TextToken string | StartTagToken string | OtherToken

record env =
  FindAllString :: "string \<Rightarrow> string list"
  httpGet :: "string \<Rightarrow> error + (int \<times> token list)"
  TrimSpace :: "string \<Rightarrow> string"
  Atoi :: "string \<Rightarrow> int"
  Itoa :: "int \<Rightarrow> string"
  hoursSince :: "nat \<Rightarrow> int \<Rightarrow> int"
  sinceString :: "nat \<Rightarrow> nat \<Rightarrow> string"

text \<open>Modelled from the spec: the accessors of the leaving-set.\<close>

definition isUserLeaving :: "Room \<Rightarrow> string \<Rightarrow> bool" where
  "isUserLeaving r user \<longleftrightarrow> user \<in> usersLeaving r"

definition setUserLeaving :: "Room \<Rightarrow> string \<Rightarrow> Room" where
  "setUserLeaving r user = r\<lparr>usersLeaving := insert user (usersLeaving r)\<rparr>"

definition clearUserLeaving :: "Room \<Rightarrow> string \<Rightarrow> Room" where
  "clearUserLeaving r user = r\<lparr>usersLeaving := usersLeaving r - {user}\<rparr>"

text \<open>Modelled from the spec: the outgoing send capability of the Room.\<close>

definition SendText :: "Room \<Rightarrow> string \<Rightarrow> string \<Rightarrow> Room" where
  "SendText r text parent = r\<lparr>sent := sent r @ [(text, parent)]\<rparr>"

definition sendPing :: "Room \<Rightarrow> int \<Rightarrow> Room" where
  "sendPing r t = r\<lparr>pings := pings r @ [t]\<rparr>"

text \<open>Modelled from the spec: a send on the error-reporting channel of the Room, and a
  line written to its logger.\<close>

definition sendErr :: "Room \<Rightarrow> error \<Rightarrow> Room" where
  "sendErr r err = r\<lparr>errChan := errChan r @ [err]\<rparr>"

definition Errorf :: "Room \<Rightarrow> string \<Rightarrow> Room" where
  "Errorf r line = r\<lparr>logger := logger r @ [line]\<rparr>"

text \<open>Modelled from the spec: the seen-store and the message-log store.  A timestamp
  is handed back as the bytes of its decimal text, absent when the user was never
  stored.\<close>

definition storeSeen :: "Room \<Rightarrow> string \<Rightarrow> int \<Rightarrow> error option \<times> Room" where
  "storeSeen r user t =
     (case seenFault r of
        Some err \<Rightarrow> (Some err, r)
      | None \<Rightarrow> (None, r\<lparr>seenStore := (seenStore r)(user \<mapsto> t)\<rparr>))"

definition retrieveSeen :: "env \<Rightarrow> Room \<Rightarrow> string \<Rightarrow> string option \<times> error option" where
  "retrieveSeen ev r user =
     (case seenFault r of
        Some err \<Rightarrow> (None, Some err)
      | None \<Rightarrow> (map_option (Itoa ev) (seenStore r user), None))"

definition storeMsgLogEvent :: "Room \<Rightarrow> string \<Rightarrow> MsgLogEvent \<Rightarrow> error option \<times> Room" where
  "storeMsgLogEvent r msgID msgLogEvent =
     (case msgLogFault r of
        Some err \<Rightarrow> (Some err, r)
      | None \<Rightarrow> (None, r\<lparr>msgLogStore := (msgLogStore r)(msgID \<mapsto> msgLogEvent)\<rparr>))"

text \<open>
  A handler runs against the Room, the clock (in seconds) and the deferred
  confirmations that \<open>go partTimer(room, user)\<close> has started and that still sleep:
  each with its user and the time its sleep ends.
\<close>

record World =
  room :: Room
  now :: nat
  timers :: "nat \<rightharpoonup> string \<times> nat"
  nextTimer :: nat

definition onRoom :: "(Room \<Rightarrow> Room) \<Rightarrow> World \<Rightarrow> World" where
  "onRoom f w = w\<lparr>room := f (room w)\<rparr>"

text \<open>What one pass through the packet case of a handler's loop ends with:
  \<open>continue\<close> (or the end of the case), \<open>return\<close>, or a panic.\<close>

datatype 's result = Continue 's | Return 's | Panicked panic

section \<open>Handlers\<close>

definition prepareMsgLogEvent :: "Message option \<Rightarrow> panic + string \<times> MsgLogEvent" where
  "prepareMsgLogEvent msg =
     (case msg of
        None \<Rightarrow> Inl NilPointerDereference
      | Some m \<Rightarrow>
          Inr (msg_ID m,
               \<lparr>log_Parent = msg_Parent m, log_UserID = user_ID (msg_Sender m),
                log_UserName = user_Name (msg_Sender m), log_Time = msg_Time m,
                log_Content = msg_Content m\<rparr>))"

definition PingEventHandler_packet :: "World \<Rightarrow> PacketEvent \<Rightarrow> World result" where
  "PingEventHandler_packet w packet =
     (if pkt_Type packet \<noteq> PingEventType then Continue w
      else
        (case Payload packet of
           (payload, Some err) \<Rightarrow> Return (onRoom (\<lambda>r. sendErr r err) w)
         | (payload, None) \<Rightarrow>
             (case payload of
                PPingEvent data \<Rightarrow> Continue (onRoom (\<lambda>r. sendPing r (ping_Time data)) w)
              | _ \<Rightarrow>
                  Return (onRoom (\<lambda>r. sendErr r
                    (ErrorString ''Could not assert payload as *PingEvent.'')) w))))"

definition PingCommandHandler_packet :: "World \<Rightarrow> PacketEvent \<Rightarrow> World result" where
  "PingCommandHandler_packet w packet =
     (if pkt_Type packet \<noteq> SendEventType then Continue w
      else
        (let data = GetMessagePayload packet in
         case isValidPingCommand data of
           Inl x \<Rightarrow> Panicked x
         | Inr ok \<Rightarrow>
             (if ok then
                (case data of
                   None \<Rightarrow> Panicked NilPointerDereference
                 | Some m \<Rightarrow> Continue (onRoom (\<lambda>r. SendText r ''pong!'' (msg_ID m)) w))
              else Continue w)))"

definition SeenRecordHandler_packet :: "World \<Rightarrow> PacketEvent \<Rightarrow> World result" where
  "SeenRecordHandler_packet w packet =
     (if pkt_Type packet \<noteq> SendEventType then Continue w
      else
        (case GetMessagePayload packet of
           None \<Rightarrow> Panicked NilPointerDereference
         | Some data \<Rightarrow>
             (let user = filter (\<lambda>c. c \<noteq> CHR '' '') (user_Name (msg_Sender data));
                  t = int (now w);
                  (err, r) = storeSeen (room w) user t
              in case err of
                   Some e \<Rightarrow> Return (w\<lparr>room := sendErr r e\<rparr>)
                 | None \<Rightarrow> Continue (w\<lparr>room := r\<rparr>))))"

definition SeenCommandHandler_packet :: "env \<Rightarrow> World \<Rightarrow> PacketEvent \<Rightarrow> World result" where
  "SeenCommandHandler_packet ev w packet =
     (if pkt_Type packet \<noteq> SendEventType then Continue w
      else
        (let data = GetMessagePayload packet in
         case isValidSeenCommand data of
           Inl x \<Rightarrow> Panicked x
         | Inr ok \<Rightarrow>
             (if ok then
                (case data of
                   None \<Rightarrow> Panicked NilPointerDereference
                 | Some m \<Rightarrow>
                     (let trimmed = TrimSpace ev (msg_Content m);
                          splits = Split trimmed CHR '' ''
                      in if length splits \<le> 1 then Panicked IndexOutOfRange
                         else if splits ! 1 = [] then Panicked SliceBoundsOutOfRange
                         else
                           (case retrieveSeen ev (room w) (tl (splits ! 1)) of
                              (lastSeen, Some err) \<Rightarrow> Return (onRoom (\<lambda>r. sendErr r err) w)
                            | (None, None) \<Rightarrow>
                                Continue (onRoom (\<lambda>r. SendText r
                                  ''User has not been seen yet.'' (msg_ID m)) w)
                            | (Some lastSeen, None) \<Rightarrow>
                                Continue (onRoom (\<lambda>r. SendText r
                                  (''Seen '' @ Itoa ev (hoursSince ev (now w) (Atoi ev lastSeen))
                                     @ '' hours ago.'') (msg_ID m)) w))))
              else Continue w)))"

fun extractTitleFromTree :: "env \<Rightarrow> token list \<Rightarrow> nat \<Rightarrow> string" where
  "extractTitleFromTree ev [] depth = []"
| "extractTitleFromTree ev (ErrorToken # z) depth = []"
| "extractTitleFromTree ev (TextToken text # z) depth =
     (if depth > 0 then
        (let title = TrimSpace ev text in if title = ''Imgur'' then [] else title)
      else extractTitleFromTree ev z depth)"
| "extractTitleFromTree ev (StartTagToken tn # z) depth =
     (if tn = ''title'' then extractTitleFromTree ev z (depth + 1)
      else extractTitleFromTree ev z depth)"
| "extractTitleFromTree ev (OtherToken # z) depth = extractTitleFromTree ev z depth"

definition getLinkTitle :: "env \<Rightarrow> string \<Rightarrow> string \<times> error option" where
  "getLinkTitle ev url =
     (case httpGet ev url of
        Inl err \<Rightarrow> ([], Some err)
      | Inr (status, z) \<Rightarrow>
          (if status \<noteq> 200 then
             ([], Some (ErrorString (''Bad response code: '' @ Itoa ev status)))
           else (extractTitleFromTree ev z 0, None)))"

fun firstLinkTitle :: "env \<Rightarrow> string list \<Rightarrow> string option" where
  "firstLinkTitle ev [] = None"
| "firstLinkTitle ev (url # urls) =
     (let url' = (if take 4 url = ''http'' then url else ''http://'' @ url);
          (title, err) = getLinkTitle ev url'
      in if err = None \<and> title \<noteq> [] then Some title else firstLinkTitle ev urls)"

definition LinkTitleHandler_packet :: "env \<Rightarrow> World \<Rightarrow> PacketEvent \<Rightarrow> World result" where
  "LinkTitleHandler_packet ev w packet =
     (if pkt_Type packet \<noteq> SendEventType then Continue w
      else
        (case GetMessagePayload packet of
           None \<Rightarrow> Panicked NilPointerDereference
         | Some data \<Rightarrow>
             (case firstLinkTitle ev (FindAllString ev (msg_Content data)) of
                Some title \<Rightarrow>
                  Continue (onRoom (\<lambda>r. SendText r (''Link title: '' @ title) (msg_ID data)) w)
              | None \<Rightarrow> Continue w)))"

definition UptimeCommandHandler_packet :: "env \<Rightarrow> World \<Rightarrow> PacketEvent \<Rightarrow> World result" where
  "UptimeCommandHandler_packet ev w packet =
     (if pkt_Type packet \<noteq> SendEventType then Continue w
      else
        (case GetMessagePayload packet of
           None \<Rightarrow> Panicked NilPointerDereference
         | Some data \<Rightarrow>
             (if msg_Content data = ''!uptime'' then
                Continue (onRoom (\<lambda>r. SendText r
                  (''This bot has been up for '' @ sinceString ev (now w) (uptime r) @ ''.'')
                  (msg_ID data)) w)
              else Continue w)))"

definition ScritchCommandHandler_packet :: "World \<Rightarrow> PacketEvent \<Rightarrow> World result" where
  "ScritchCommandHandler_packet w packet =
     (if pkt_Type packet \<noteq> SendEventType then Continue w
      else
        (case GetMessagePayload packet of
           None \<Rightarrow> Panicked NilPointerDereference
         | Some data \<Rightarrow>
             (if msg_Content data = ''!scritch'' then
                Continue (onRoom (\<lambda>r. SendText r ''/me bruxes'' (msg_ID data)) w)
              else Continue w)))"

definition DebugHandler_packet :: "World \<Rightarrow> PacketEvent \<Rightarrow> World result" where
  "DebugHandler_packet w packet =
     (let w1 = (if pkt_Error packet \<noteq> [] then
                  onRoom (\<lambda>r. Errorf r
                    (''Packet received containing error: '' @ pkt_Error packet)) w
                else w)
      in if pkt_Type packet = BounceEventType then
           (case Payload packet of
              (payload, Some err) \<Rightarrow> Continue w1
            | (payload, None) \<Rightarrow>
                (case payload of
                   PBounceEvent data \<Rightarrow>
                     Continue (onRoom (\<lambda>r. Errorf r
                       (''BounceEvent received, reason: '' @ bounce_Reason data
                          @ '' and ID: '' @ pkt_ID packet)) w1)
                 | _ \<Rightarrow> Continue w1))
         else Continue w1)"

definition NickChangeHandler_packet :: "World \<Rightarrow> PacketEvent \<Rightarrow> World result" where
  "NickChangeHandler_packet w packet =
     (if pkt_Type packet \<noteq> NickEventType then Continue w
      else
        (case GetNickEventPayload packet of
           Inl x \<Rightarrow> Panicked x
         | Inr data \<Rightarrow>
             (if nick_From data = [] \<or> nick_To data = [] then Continue w
              else
                Continue (onRoom (\<lambda>r. SendText r
                  (''< '' @ nick_From data @ '' is now known as '' @ nick_To data @ ''. >'')
                  []) w))))"

subsection \<open>Presence: part, join and the deferred confirmation\<close>

definition leftText :: "string \<Rightarrow> string" where
  "leftText user = ''< '' @ user @ '' left the room. >''"

definition joinedText :: "string \<Rightarrow> string" where
  "joinedText user = ''< '' @ user @ '' joined the room. >''"

text \<open>The debounce delay of \<open>partTimer\<close>, five minutes, in seconds.\<close>

definition partDelay :: nat where
  "partDelay = 5 * 60"

text \<open>\<open>partTimer\<close> after its sleep: the leaving state is read from the Room as it is
  then.\<close>

definition partTimer :: "Room \<Rightarrow> string \<Rightarrow> Room" where
  "partTimer r user =
     (if isUserLeaving r user \<and> user \<noteq> [] then
        clearUserLeaving (SendText r (leftText user) []) user
      else r)"

text \<open>\<open>go partTimer(room, user)\<close>: a new confirmation that sleeps for the delay.\<close>

definition go_partTimer :: "World \<Rightarrow> string \<Rightarrow> World" where
  "go_partTimer w user =
     w\<lparr>timers := (timers w)(nextTimer w \<mapsto> (user, now w + partDelay)),
       nextTimer := nextTimer w + 1\<rparr>"

definition PartEventHandler_packet :: "World \<Rightarrow> PacketEvent \<Rightarrow> World result" where
  "PartEventHandler_packet w packet =
     (if pkt_Type packet \<noteq> PartEventType then Continue w
      else
        (case GetPresenceEventPayload packet of
           Inl x \<Rightarrow> Panicked x
         | Inr data \<Rightarrow>
             (case pres_User data of
                None \<Rightarrow> Panicked NilPointerDereference
              | Some u \<Rightarrow>
                  (let user = user_Name u
                   in Continue (go_partTimer (onRoom (\<lambda>r. setUserLeaving r user) w) user)))))"

definition JoinEventHandler_packet :: "World \<Rightarrow> PacketEvent \<Rightarrow> World result" where
  "JoinEventHandler_packet w packet =
     (if pkt_Type packet \<noteq> JoinEventType \<and> pkt_Type packet \<noteq> NickEventType then Continue w
      else if pkt_Type packet = JoinEventType then
        (case GetPresenceEventPayload packet of
           Inl x \<Rightarrow> Panicked x
         | Inr data \<Rightarrow>
             (case pres_User data of
                None \<Rightarrow> Panicked NilPointerDereference
              | Some u \<Rightarrow>
                  (let user = user_Name u
                   in if user = [] then Continue w
                      else
                        Continue (onRoom (\<lambda>r. clearUserLeaving
                          (if \<not> isUserLeaving r user then SendText r (joinedText user) [] else r)
                          user) w))))
      else
        (case GetNickEventPayload packet of
           Inl x \<Rightarrow> Panicked x
         | Inr data \<Rightarrow>
             (if nick_From data \<noteq> [] then Continue w
              else
                Continue (onRoom (\<lambda>r. clearUserLeaving
                  (if \<not> isUserLeaving r (nick_To data)
                   then SendText r (joinedText (nick_To data)) [] else r)
                  (nick_To data)) w))))"

text \<open>\<open>MessageLogHandler\<close> calls \<open>room.storeMsgLogEvent\<close> as a statement: what the
  store returns is dropped.\<close>

definition MessageLogHandler_packet :: "World \<Rightarrow> PacketEvent \<Rightarrow> World result" where
  "MessageLogHandler_packet w packet =
     (if pkt_Type packet = SendEventType \<or> pkt_Type packet = SendReplyType then
        (case prepareMsgLogEvent (GetMessagePayload packet) of
           Inl x \<Rightarrow> Panicked x
         | Inr (msgID, msgLogEvent) \<Rightarrow>
             Continue (onRoom (\<lambda>r. snd (storeMsgLogEvent r msgID msgLogEvent)) w))
      else Continue w)"

subsection \<open>The loop of a handler\<close>

text \<open>
  Every handler is \<open>for { select { case packet := <-input: ... case cmd := <-cmdChan:
  if cmd == "kill" { return } } }\<close>.  One pass of the loop takes whichever channel is
  ready: a packet or a command.  The loop is run on the sequence of what its passes
  receive; when the sequence is used up the handler is blocked in \<open>select\<close>.
\<close>

datatype input = Packet PacketEvent | Command string

datatype 's exit = Waiting 's | Returned 's | Crashed panic

fun handlerLoop :: "('s \<Rightarrow> PacketEvent \<Rightarrow> 's result) \<Rightarrow> 's \<Rightarrow> input list \<Rightarrow> 's exit" where
  "handlerLoop body s [] = Waiting s"
| "handlerLoop body s (Packet packet # ins) =
     (case body s packet of
        Continue s' \<Rightarrow> handlerLoop body s' ins
      | Return s' \<Rightarrow> Returned s'
      | Panicked x \<Rightarrow> Crashed x)"
| "handlerLoop body s (Command cmd # ins) =
     (if cmd = ''kill'' then Returned s else handlerLoop body s ins)"

definition PingEventHandler :: "World \<Rightarrow> input list \<Rightarrow> World exit" where
  "PingEventHandler = handlerLoop PingEventHandler_packet"

definition PingCommandHandler :: "World \<Rightarrow> input list \<Rightarrow> World exit" where
  "PingCommandHandler = handlerLoop PingCommandHandler_packet"

definition SeenRecordHandler :: "World \<Rightarrow> input list \<Rightarrow> World exit" where
  "SeenRecordHandler = handlerLoop SeenRecordHandler_packet"

definition SeenCommandHandler :: "env \<Rightarrow> World \<Rightarrow> input list \<Rightarrow> World exit" where
  "SeenCommandHandler ev = handlerLoop (SeenCommandHandler_packet ev)"

definition LinkTitleHandler :: "env \<Rightarrow> World \<Rightarrow> input list \<Rightarrow> World exit" where
  "LinkTitleHandler ev = handlerLoop (LinkTitleHandler_packet ev)"

definition UptimeCommandHandler :: "env \<Rightarrow> World \<Rightarrow> input list \<Rightarrow> World exit" where
  "UptimeCommandHandler ev = handlerLoop (UptimeCommandHandler_packet ev)"

definition ScritchCommandHandler :: "World \<Rightarrow> input list \<Rightarrow> World exit" where
  "ScritchCommandHandler = handlerLoop ScritchCommandHandler_packet"

definition DebugHandler :: "World \<Rightarrow> input list \<Rightarrow> World exit" where
  "DebugHandler = handlerLoop DebugHandler_packet"

definition NickChangeHandler :: "World \<Rightarrow> input list \<Rightarrow> World exit" where
  "NickChangeHandler = handlerLoop NickChangeHandler_packet"

definition PartEventHandler :: "World \<Rightarrow> input list \<Rightarrow> World exit" where
  "PartEventHandler = handlerLoop PartEventHandler_packet"

definition JoinEventHandler :: "World \<Rightarrow> input list \<Rightarrow> World exit" where
  "JoinEventHandler = handlerLoop JoinEventHandler_packet"

definition MessageLogHandler :: "World \<Rightarrow> input list \<Rightarrow> World exit" where
  "MessageLogHandler = handlerLoop MessageLogHandler_packet"

section \<open>The presence subsystem as a transition system\<close>

text \<open>
  Modelled from the spec: the dispatcher delivers every packet to every handler, and
  each sleeping confirmation wakes at some moment not before its sleep ends.  An event
  is the delivery of a packet (the part handler and the join handler each take it from
  their channel and finish their pass), time passing, or the scheduler resuming the
  confirmation with the given number.  A confirmation that is not due, or that does
  not exist, cannot be resumed: the event changes nothing.  A panic ends the process.
\<close>

datatype event = Deliver PacketEvent | Elapse nat | Fire nat

definition afterPass :: "World result \<Rightarrow> panic + World" where
  "afterPass res = (case res of Continue w \<Rightarrow> Inr w | Return w \<Rightarrow> Inr w | Panicked x \<Rightarrow> Inl x)"

fun step :: "World \<Rightarrow> event \<Rightarrow> panic + World" where
  "step w (Deliver packet) =
     (case afterPass (PartEventHandler_packet w packet) of
        Inl x \<Rightarrow> Inl x
      | Inr w1 \<Rightarrow> afterPass (JoinEventHandler_packet w1 packet))"
| "step w (Elapse d) = Inr (w\<lparr>now := now w + d\<rparr>)"
| "step w (Fire k) =
     (case timers w k of
        None \<Rightarrow> Inr w
      | Some (user, wake) \<Rightarrow>
          (if now w < wake then Inr w
           else Inr (w\<lparr>room := partTimer (room w) user, timers := (timers w)(k := None)\<rparr>)))"

fun run :: "World \<Rightarrow> event list \<Rightarrow> panic + World" where
  "run w [] = Inr w"
| "run w (e # es) = (case step w e of Inl x \<Rightarrow> Inl x | Inr w1 \<Rightarrow> run w1 es)"

text \<open>The user a packet is a part-event for, and the user a packet is a join for: the
  name in a join-event, or the new name in a nick-event whose \<open>from\<close> is empty.\<close>

definition partUser :: "PacketEvent \<Rightarrow> string option" where
  "partUser packet =
     (if pkt_Type packet = PartEventType then
        (case GetPresenceEventPayload packet of
           Inl x \<Rightarrow> None
         | Inr data \<Rightarrow> map_option user_Name (pres_User data))
      else None)"

definition joinUser :: "PacketEvent \<Rightarrow> string option" where
  "joinUser packet =
     (if pkt_Type packet = JoinEventType then
        (case GetPresenceEventPayload packet of
           Inl x \<Rightarrow> None
         | Inr data \<Rightarrow> map_option user_Name (pres_User data))
      else if pkt_Type packet = NickEventType then
        (case GetNickEventPayload packet of
           Inl x \<Rightarrow> None
         | Inr data \<Rightarrow> (if nick_From data = [] then Some (nick_To data) else None))
      else None)"

section \<open>Vocabulary of the properties\<close>

text \<open>A well-formed ping body: an object with exactly one member that names the
  \<open>time\<close> field and exactly one that names the \<open>next\<close> field, both integers of the
  \<open>int64\<close> range; other members are free.\<close>

definition wellFormedPingBody :: "int \<Rightarrow> int \<Rightarrow> (string \<times> json) list \<Rightarrow> bool" where
  "wellFormedPingBody t n kvs \<longleftrightarrow>
     in_int64 t \<and> in_int64 n
     \<and> map snd (filter (\<lambda>kv. findField PingEvent_fields (fst kv) = Some ''time'') kvs)
         = [JInt t]
     \<and> map snd (filter (\<lambda>kv. findField PingEvent_fields (fst kv) = Some ''next'') kvs)
         = [JInt n]"

text \<open>Every handler's pass over a packet, with the type tags its filter lets through
  (for \<open>DebugHandler\<close> the tag it decodes), and every handler's loop.\<close>

definition handlerTable ::
  "env \<Rightarrow> ((World \<Rightarrow> PacketEvent \<Rightarrow> World result) \<times> PacketType list) list" where
  "handlerTable ev =
     [(PingEventHandler_packet, [PingEventType]),
      (PingCommandHandler_packet, [SendEventType]),
      (SeenRecordHandler_packet, [SendEventType]),
      (SeenCommandHandler_packet ev, [SendEventType]),
      (LinkTitleHandler_packet ev, [SendEventType]),
      (UptimeCommandHandler_packet ev, [SendEventType]),
      (ScritchCommandHandler_packet, [SendEventType]),
      (DebugHandler_packet, [BounceEventType]),
      (NickChangeHandler_packet, [NickEventType]),
      (PartEventHandler_packet, [PartEventType]),
      (JoinEventHandler_packet, [JoinEventType, NickEventType]),
      (MessageLogHandler_packet, [SendEventType, SendReplyType])]"

definition handlers :: "env \<Rightarrow> (World \<Rightarrow> input list \<Rightarrow> World exit) list" where
  "handlers ev =
     [PingEventHandler, PingCommandHandler, SeenRecordHandler, SeenCommandHandler ev,
      LinkTitleHandler ev, UptimeCommandHandler ev, ScritchCommandHandler, DebugHandler,
      NickChangeHandler, PartEventHandler, JoinEventHandler, MessageLogHandler]"

text \<open>What the join handler does to the Room for a user it does not skip.\<close>

definition joined :: "Room \<Rightarrow> string \<Rightarrow> Room" where
  "joined r user =
     clearUserLeaving
       (if \<not> isUserLeaving r user then SendText r (joinedText user) [] else r) user"

text \<open>Confirmation \<open>k\<close> was started for user \<open>U\<close> with wake-up time \<open>t\<close>; it still
  sleeps or it is gone.\<close>

definition ownTimer :: "string \<Rightarrow> nat \<Rightarrow> nat \<Rightarrow> World \<Rightarrow> bool" where
  "ownTimer U k t w \<longleftrightarrow> k < nextTimer w \<and> (timers w k = None \<or> timers w k = Some (U, t))"

text \<open>User \<open>U\<close> is pending leave, confirmation \<open>k\<close> is the only one that sleeps for
  \<open>U\<close>, and \<open>c\<close> leave announcements for \<open>U\<close> have been sent so far.\<close>

definition awaiting :: "string \<Rightarrow> nat \<Rightarrow> nat \<Rightarrow> nat \<Rightarrow> World \<Rightarrow> bool" where
  "awaiting U k t c w \<longleftrightarrow>
     U \<in> usersLeaving (room w) \<and> timers w k = Some (U, t) \<and> k < nextTimer w
     \<and> (\<forall>i u s. timers w i = Some (u, s) \<longrightarrow> i \<noteq> k \<longrightarrow> u \<noteq> U)
     \<and> count_list (sent (room w)) (leftText U, []) = c"

section \<open>Sample inputs\<close>

definition emptyRoom :: Room where
  "emptyRoom = \<lparr>usersLeaving = {}, sent = [], pings = [], errChan = [], logger = [],
     seenStore = Map.empty, msgLogStore = Map.empty, uptime = 0, seenFault = None,
     msgLogFault = None\<rparr>"

definition emptyWorld :: World where
  "emptyWorld = \<lparr>room = emptyRoom, now = 0, timers = Map.empty, nextTimer = 0\<rparr>"

definition plainEnv :: env where
  "plainEnv = \<lparr>FindAllString = (\<lambda>s. []), httpGet = (\<lambda>url. Inl (ErrorString ''offline'')),
     TrimSpace = (\<lambda>s. s), Atoi = (\<lambda>s. 0), Itoa = (\<lambda>n. ''0''),
     hoursSince = (\<lambda>t u. 0), sinceString = (\<lambda>t u. ''0s'')\<rparr>"

definition samplePacket :: "PacketType \<Rightarrow> json \<Rightarrow> PacketEvent" where
  "samplePacket ty body = \<lparr>pkt_ID = ''1'', pkt_Type = ty, pkt_Data = Doc body, pkt_Error = []\<rparr>"

definition pingPacket :: PacketEvent where
  "pingPacket = samplePacket PingEventType (JObject [(''time'', JInt 1), (''next'', JInt 2)])"

definition presenceBody :: "string \<Rightarrow> json" where
  "presenceBody name =
     JObject [(''id'', JString ''agent:1''), (''name'', JString name),
       (''server_id'', JString ''heim''), (''server_era'', JString ''era''),
       (''session_id'', JString ''s1'')]"

definition partAlice :: PacketEvent where
  "partAlice = samplePacket PartEventType (presenceBody ''alice'')"

definition joinAlice :: PacketEvent where
  "joinAlice = samplePacket JoinEventType (presenceBody ''alice'')"

definition nickBody :: "string \<Rightarrow> string \<Rightarrow> json" where
  "nickBody from to =
     JObject [(''session_id'', JString ''s1''), (''id'', JString ''agent:1''),
       (''from'', JString from), (''to'', JString to)]"

definition messageBody :: "string \<Rightarrow> json" where
  "messageBody content =
     JObject [(''id'', JString ''m1''), (''parent'', JString []), (''time'', JInt 7),
       (''sender'', JObject [(''id'', JString ''agent:1''), (''name'', JString ''bob'')]),
       (''content'', JString content)]"

definition helloPacket :: PacketEvent where
  "helloPacket = samplePacket SendEventType (messageBody ''hello'')"

definition helloRecord :: MsgLogEvent where
  "helloRecord = \<lparr>log_Parent = [], log_UserID = ''agent:1'', log_UserName = ''bob'',
     log_Time = 7, log_Content = ''hello''\<rparr>"

definition diskFull :: error where
  "diskFull = ErrorString ''disk full''"

definition faultyLogWorld :: World where
  "faultyLogWorld = emptyWorld\<lparr>room := emptyRoom\<lparr>msgLogFault := Some diskFull\<rparr>\<rparr>"

definition faultySeenWorld :: World where
  "faultySeenWorld = emptyWorld\<lparr>room := emptyRoom\<lparr>seenFault := Some diskFull\<rparr>\<rparr>"

definition emptyNick :: PacketEvent where
  "emptyNick = samplePacket NickEventType (nickBody [] [])"

definition emptyJoin :: PacketEvent where
  "emptyJoin = samplePacket JoinEventType (presenceBody [])"

definition emptyLeavingWorld :: World where
  "emptyLeavingWorld = emptyWorld\<lparr>room := emptyRoom\<lparr>usersLeaving := {[]}\<rparr>\<rparr>"

definition aliceLeaving :: "nat \<Rightarrow> World" where
  "aliceLeaving t =
     \<lparr>room = emptyRoom\<lparr>usersLeaving := {''alice''}\<rparr>, now = t,
      timers = [0 \<mapsto> (''alice'', 300)], nextTimer = 1\<rparr>"

definition aliceBack :: World where
  "aliceBack =
     \<lparr>room = emptyRoom, now = 301, timers = [0 \<mapsto> (''alice'', 300)], nextTimer = 1\<rparr>"

section \<open>Evaluation rules\<close>

lemmas decode_defs = Payload_def Unmarshal_def decodeStruct_def findField_def saveError_def
  in_int64_def toLowerASCII_def
  User_fields_def Message_fields_def PingEvent_fields_def PingReply_fields_def
  SendCommand_fields_def NickEvent_fields_def AuthCommand_fields_def
  PresenceEvent_fields_def BounceEvent_fields_def
  setUser_def setMessage_def setPingEvent_def setPingReply_def setSendCommand_def
  setNickEvent_def setAuthCommand_def setPresenceEvent_def setBounceEvent_def
  zeroUser_def zeroMessage_def zeroPingEvent_def zeroPingReply_def zeroSendCommand_def
  zeroNickEvent_def zeroAuthCommand_def zeroPresenceEvent_def zeroBounceEvent_def

lemmas sample_defs = samplePacket_def pingPacket_def presenceBody_def partAlice_def joinAlice_def
  nickBody_def messageBody_def emptyRoom_def emptyWorld_def

section \<open>Decoding\<close>

lemma find_in_set: "find P xs = Some x \<Longrightarrow> x \<in> set xs"
  by (induction xs) (auto split: if_splits)

lemma findField_in_names: "findField names k = Some f \<Longrightarrow> f \<in> set names"
  by (auto simp: findField_def split: option.splits dest: find_in_set)

lemma saveError_None [simp]: "saveError saved None = saved"
  by (simp add: saveError_def split: option.splits)

lemma filter_singleton_all:
  assumes "map f (filter P xs) = [y]"
  shows "(\<forall>x\<in>set xs. P x \<longrightarrow> f x = y) \<and> (\<exists>x\<in>set xs. P x)"
proof -
  have "f ` {x \<in> set xs. P x} = set (map f (filter P xs))" by auto
  also have "\<dots> = {y}" using assms by simp
  finally show ?thesis by auto
qed

text \<open>Decoding the members of a ping body: each member that names a field stores its
  integer, every other member is skipped, and no error is recorded.\<close>

lemma decodeObject_ping:
  assumes "\<forall>kv\<in>set kvs. findField PingEvent_fields (fst kv) = Some ''time'' \<longrightarrow> snd kv = JInt t"
    and "\<forall>kv\<in>set kvs. findField PingEvent_fields (fst kv) = Some ''next'' \<longrightarrow> snd kv = JInt n"
    and "in_int64 t" and "in_int64 n"
  shows "decodeObject PingEvent_fields setPingEvent kvs (x, e) =
     (\<lparr>ping_Time = (if \<exists>kv\<in>set kvs. findField PingEvent_fields (fst kv) = Some ''time''
                     then t else ping_Time x),
       ping_Next = (if \<exists>kv\<in>set kvs. findField PingEvent_fields (fst kv) = Some ''next''
                     then n else ping_Next x)\<rparr>, e)"
  using assms
proof (induction kvs arbitrary: x)
  case Nil
  then show ?case by simp
next
  case (Cons kv kvs)
  obtain k v where kv: "kv = (k, v)" by (cases kv)
  show ?case
  proof (cases "findField PingEvent_fields k")
    case None
    with Cons kv show ?thesis by simp
  next
    case (Some f)
    then have "f \<in> set PingEvent_fields" by (rule findField_in_names)
    then consider "f = ''time''" | "f = ''next''" by (auto simp: PingEvent_fields_def)
    then show ?thesis
    proof cases
      case 1
      with Some Cons.prems kv have v: "v = JInt t" by auto
      with 1 Some Cons kv show ?thesis by (simp add: setPingEvent_def)
    next
      case 2
      with Some Cons.prems kv have v: "v = JInt n" by auto
      with 2 Some Cons kv show ?thesis by (simp add: setPingEvent_def)
    qed
  qed
qed

text \<open>
  C2.  \<open>Payload\<close> of a packet tagged \<open>ping-event\<close> whose body is a well-formed ping
  object returns a \<open>PingEvent\<close> with the \<open>time\<close> and \<open>next\<close> of the body and no
  error.  \<open>Payload\<close> of a packet whose tag has no case in the switch returns the
  error \<open>Unexpected packet type.\<close> together with the raw body, never a decoded struct.
\<close>

theorem Payload_ping_event_and_unknown_type:
  "(pkt_Type p = PingEventType \<and> pkt_Data p = Doc (JObject kvs) \<and> wellFormedPingBody t n kvs
      \<longrightarrow> Payload p = (PPingEvent \<lparr>ping_Time = t, ping_Next = n\<rparr>, None))
   \<and> (pkt_Type q \<notin> set registeredTypes
      \<longrightarrow> Payload q = (PRaw (pkt_Data q), Some (ErrorString ''Unexpected packet type.'')))"
proof (intro conjI impI)
  assume a: "pkt_Type p = PingEventType \<and> pkt_Data p = Doc (JObject kvs)
    \<and> wellFormedPingBody t n kvs"
  then have wf: "wellFormedPingBody t n kvs" by simp
  from wf have t:
    "(\<forall>kv\<in>set kvs. findField PingEvent_fields (fst kv) = Some ''time'' \<longrightarrow> snd kv = JInt t)
      \<and> (\<exists>kv\<in>set kvs. findField PingEvent_fields (fst kv) = Some ''time'')"
    unfolding wellFormedPingBody_def by (intro filter_singleton_all) simp
  from wf have n:
    "(\<forall>kv\<in>set kvs. findField PingEvent_fields (fst kv) = Some ''next'' \<longrightarrow> snd kv = JInt n)
      \<and> (\<exists>kv\<in>set kvs. findField PingEvent_fields (fst kv) = Some ''next'')"
    unfolding wellFormedPingBody_def by (intro filter_singleton_all) simp
  from wf have r: "in_int64 t" "in_int64 n" by (simp_all add: wellFormedPingBody_def)
  have "decodeObject PingEvent_fields setPingEvent kvs (zeroPingEvent, None) =
      (\<lparr>ping_Time = t, ping_Next = n\<rparr>, None)"
    using t n r by (subst decodeObject_ping[where t = t and n = n]) auto
  with a show "Payload p = (PPingEvent \<lparr>ping_Time = t, ping_Next = n\<rparr>, None)"
    by (simp add: Payload_def Unmarshal_def decodeStruct_def)
next
  assume "pkt_Type q \<notin> set registeredTypes"
  then show "Payload q = (PRaw (pkt_Data q), Some (ErrorString ''Unexpected packet type.''))"
    by (simp add: registeredTypes_def Payload_def)
qed

text \<open>The theorem at the sample ping packet and at a packet tagged \<open>nick-reply\<close>, a
  tag the protocol names but the switch has no case for.\<close>

theorem Payload_ping_event_and_unknown_type_witness:
  "pkt_Type pingPacket = PingEventType
   \<and> wellFormedPingBody 1 2 [(''time'', JInt 1), (''next'', JInt 2)]
   \<and> Payload pingPacket = (PPingEvent \<lparr>ping_Time = 1, ping_Next = 2\<rparr>, None)
   \<and> pkt_Type (samplePacket NickReplyType JNull) \<notin> set registeredTypes
   \<and> Payload (samplePacket NickReplyType JNull)
       = (PRaw (Doc JNull), Some (ErrorString ''Unexpected packet type.''))"
  using Payload_ping_event_and_unknown_type
    [of pingPacket "[(''time'', JInt 1), (''next'', JInt 2)]" 1 2 "samplePacket NickReplyType JNull"]
  by (simp add: pingPacket_def samplePacket_def wellFormedPingBody_def registeredTypes_def
      findField_def PingEvent_fields_def in_int64_def toLowerASCII_def)

text \<open>
  C3.  The claim is that every typed accessor fails loudly when the payload does not
  decode as the requested variant.  The code does not: \<open>GetMessagePayload\<close> on a
  packet of another variant (here a ping-event) returns the nil pointer without any
  signal, where its two siblings panic; and all three drop the error of \<open>Payload\<close>, so
  a body that fails to decode under the right tag comes back as the zero struct.
\<close>

theorem typed_accessors_return_silently:
  "GetMessagePayload pingPacket = None
   \<and> GetMessagePayload (samplePacket SendEventType (JArray [])) = Some zeroMessage
   \<and> GetNickEventPayload
       \<lparr>pkt_ID = ''1'', pkt_Type = NickEventType, pkt_Data = NotJSON ''garbage'', pkt_Error = []\<rparr>
       = Inr zeroNickEvent
   \<and> GetPresenceEventPayload (samplePacket JoinEventType (JString ''x'')) = Inr zeroPresenceEvent"
  by (simp add: GetMessagePayload_def GetNickEventPayload_def GetPresenceEventPayload_def
      sample_defs decode_defs)

section \<open>Command matchers\<close>

lemma isValidPingCommand_prefix:
  "isValidPingCommand (Some m) = Inr (\<exists>rest. msg_Content m = ''!ping'' @ rest)"
proof -
  have "(length (msg_Content m) \<ge> 5 \<and> take 5 (msg_Content m) = ''!ping'')
      \<longleftrightarrow> (\<exists>rest. msg_Content m = ''!ping'' @ rest)"
  proof
    assume a: "length (msg_Content m) \<ge> 5 \<and> take 5 (msg_Content m) = ''!ping''"
    have "msg_Content m = take 5 (msg_Content m) @ drop 5 (msg_Content m)" by simp
    with a show "\<exists>rest. msg_Content m = ''!ping'' @ rest" by metis
  next
    assume "\<exists>rest. msg_Content m = ''!ping'' @ rest"
    then obtain rest where "msg_Content m = ''!ping'' @ rest" ..
    then show "length (msg_Content m) \<ge> 5 \<and> take 5 (msg_Content m) = ''!ping''" by simp
  qed
  then show ?thesis by (simp add: isValidPingCommand_def)
qed

text \<open>
  C4, as stated, has \<open>isValidPingCommand\<close> reject the content \<open>!pingx\<close>.  The matcher
  compares the first five bytes only, and accepts it.
\<close>

theorem isValidPingCommand_accepts_pingx:
  "isValidPingCommand (Some (zeroMessage\<lparr>msg_Content := ''!pingx''\<rparr>)) = Inr True"
  by (simp add: isValidPingCommand_def)

text \<open>
  C4, amended.  \<open>isValidPingCommand\<close> accepts exactly the contents that begin with
  \<open>!ping\<close>: it accepts \<open>!ping extra text\<close> and it accepts \<open>!pingx\<close> as well.
  \<open>isValidSeenCommand\<close> accepts \<open>!seen @carol\<close> and rejects \<open>!seen carol\<close>.
\<close>

theorem command_matchers_decide:
  "isValidPingCommand (Some m) = Inr (\<exists>rest. msg_Content m = ''!ping'' @ rest)
   \<and> isValidPingCommand (Some (m\<lparr>msg_Content := ''!ping extra text''\<rparr>)) = Inr True
   \<and> isValidPingCommand (Some (m\<lparr>msg_Content := ''!pingx''\<rparr>)) = Inr True
   \<and> isValidSeenCommand (Some (m\<lparr>msg_Content := ''!seen @carol''\<rparr>)) = Inr True
   \<and> isValidSeenCommand (Some (m\<lparr>msg_Content := ''!seen carol''\<rparr>)) = Inr False"
proof -
  have "isValidPingCommand (Some (m\<lparr>msg_Content := ''!ping extra text''\<rparr>)) = Inr True"
    and "isValidPingCommand (Some (m\<lparr>msg_Content := ''!pingx''\<rparr>)) = Inr True"
    by (simp_all add: isValidPingCommand_def)
  moreover have "isValidSeenCommand (Some (m\<lparr>msg_Content := ''!seen @carol''\<rparr>)) = Inr True"
    and "isValidSeenCommand (Some (m\<lparr>msg_Content := ''!seen carol''\<rparr>)) = Inr False"
    by (simp_all add: isValidSeenCommand_def)
  ultimately show ?thesis using isValidPingCommand_prefix [of m] by simp
qed

text \<open>
  C10.  The claim is that \<open>isValidSeenCommand\<close> returns false for a content of five or
  six bytes that begins with \<open>!seen\<close>.  The guard of the code asks for five bytes and
  then reads the byte at index 6: on \<open>!seen\<close> and on \<open>!seen \<close> (six bytes) the read is
  out of range and the function panics.
\<close>

theorem isValidSeenCommand_short_content_panics:
  "isValidSeenCommand (Some (m\<lparr>msg_Content := ''!seen''\<rparr>)) = Inl IndexOutOfRange
   \<and> isValidSeenCommand (Some (m\<lparr>msg_Content := ''!seen ''\<rparr>)) = Inl IndexOutOfRange"
  by (simp add: isValidSeenCommand_def)

section \<open>Handlers\<close>

lemmas room_defs = onRoom_def isUserLeaving_def setUserLeaving_def clearUserLeaving_def
  SendText_def sendPing_def sendErr_def Errorf_def storeSeen_def retrieveSeen_def
  storeMsgLogEvent_def

lemmas handler_packet_defs = PingEventHandler_packet_def PingCommandHandler_packet_def
  SeenRecordHandler_packet_def SeenCommandHandler_packet_def LinkTitleHandler_packet_def
  UptimeCommandHandler_packet_def ScritchCommandHandler_packet_def DebugHandler_packet_def
  NickChangeHandler_packet_def PartEventHandler_packet_def JoinEventHandler_packet_def
  MessageLogHandler_packet_def

lemmas handler_defs = PingEventHandler_def PingCommandHandler_def
  SeenRecordHandler_def SeenCommandHandler_def LinkTitleHandler_def
  UptimeCommandHandler_def ScritchCommandHandler_def DebugHandler_def
  NickChangeHandler_def PartEventHandler_def JoinEventHandler_def
  MessageLogHandler_def

lemma onRoom_logger_same [simp]: "onRoom (\<lambda>r. r\<lparr>logger := logger (room w)\<rparr>) w = w"
  by (simp add: onRoom_def)

lemma ignore_plain:
  assumes "body w p = Continue w"
  shows "\<exists>lg. body w p = Continue (onRoom (\<lambda>r. r\<lparr>logger := lg\<rparr>) w)"
proof -
  have "body w p = Continue (onRoom (\<lambda>r. r\<lparr>logger := logger (room w)\<rparr>) w)"
    using assms by simp
  then show ?thesis ..
qed

text \<open>\<open>DebugHandler\<close> writes a log line for any packet that carries a server error,
  whatever its type; for a type other than \<open>bounce-event\<close> it does nothing else.\<close>

lemma ignore_debug:
  assumes "pkt_Type p \<noteq> BounceEventType"
  shows "\<exists>lg. DebugHandler_packet w p = Continue (onRoom (\<lambda>r. r\<lparr>logger := lg\<rparr>) w)"
proof (cases "pkt_Error p = []")
  case True
  with assms have "DebugHandler_packet w p = Continue w" by (simp add: DebugHandler_packet_def)
  then show ?thesis by (rule ignore_plain)
next
  case False
  with assms have "DebugHandler_packet w p = Continue (onRoom (\<lambda>r. r\<lparr>logger :=
      logger (room w) @ [''Packet received containing error: '' @ pkt_Error p]\<rparr>) w)"
    by (simp add: DebugHandler_packet_def Errorf_def onRoom_def)
  then show ?thesis ..
qed

text \<open>
  C8.  For every handler and every packet whose type tag is not one the handler's
  filter lets through, the pass over the packet ends with \<open>continue\<close> in a world that
  differs from the one before at most in the lines of the logger: nothing is sent or
  pinged, the leaving-set, the stores, the error channel and the confirmations are
  as before, and the loop goes on with the next input.
\<close>

theorem handlers_ignore_other_types:
  assumes "(body, tags) \<in> set (handlerTable ev)" and "pkt_Type p \<notin> set tags"
  shows "\<exists>lg. body w p = Continue (onRoom (\<lambda>r. r\<lparr>logger := lg\<rparr>) w)
           \<and> handlerLoop body w (Packet p # ins)
               = handlerLoop body (onRoom (\<lambda>r. r\<lparr>logger := lg\<rparr>) w) ins"
proof -
  have "body = DebugHandler_packet \<and> tags = [BounceEventType] \<or> body w p = Continue w"
    using assms by (auto simp: handlerTable_def handler_packet_defs)
  then have "\<exists>lg. body w p = Continue (onRoom (\<lambda>r. r\<lparr>logger := lg\<rparr>) w)"
  proof
    assume d: "body = DebugHandler_packet \<and> tags = [BounceEventType]"
    with assms(2) have "pkt_Type p \<noteq> BounceEventType" by simp
    then show ?thesis using d by (simp add: ignore_debug)
  next
    assume "body w p = Continue w"
    then show ?thesis by (rule ignore_plain)
  qed
  then obtain lg where "body w p = Continue (onRoom (\<lambda>r. r\<lparr>logger := lg\<rparr>) w)" ..
  then show ?thesis by auto
qed

text \<open>The theorem at \<open>DebugHandler\<close> and a ping-event that carries a server error, and
  at the part handler and the same packet, which it leaves the world untouched on.\<close>

theorem handlers_ignore_other_types_witness:
  "(DebugHandler_packet, [BounceEventType]) \<in> set (handlerTable plainEnv)
   \<and> pkt_Type (pingPacket\<lparr>pkt_Error := ''oops''\<rparr>) \<notin> set [BounceEventType]
   \<and> (\<exists>lg. DebugHandler_packet emptyWorld (pingPacket\<lparr>pkt_Error := ''oops''\<rparr>)
             = Continue (onRoom (\<lambda>r. r\<lparr>logger := lg\<rparr>) emptyWorld)
           \<and> handlerLoop DebugHandler_packet emptyWorld
                [Packet (pingPacket\<lparr>pkt_Error := ''oops''\<rparr>)]
               = handlerLoop DebugHandler_packet
                   (onRoom (\<lambda>r. r\<lparr>logger := lg\<rparr>) emptyWorld) [])
   \<and> PartEventHandler_packet emptyWorld (pingPacket\<lparr>pkt_Error := ''oops''\<rparr>)
       = Continue emptyWorld"
  using handlers_ignore_other_types [of DebugHandler_packet "[BounceEventType]" plainEnv
      "pingPacket\<lparr>pkt_Error := ''oops''\<rparr>" emptyWorld "[]"]
  by (simp add: handlerTable_def pingPacket_def samplePacket_def PartEventHandler_packet_def)

lemma handlerLoop_kill:
  "handlerLoop body s ins = Waiting s' \<Longrightarrow>
   handlerLoop body s (ins @ Command ''kill'' # rest) = Returned s'"
proof (induction ins arbitrary: s)
  case Nil
  then show ?case by simp
next
  case (Cons i ins)
  show ?case
  proof (cases i)
    case (Packet p)
    with Cons show ?thesis by (cases "body s p") auto
  next
    case (Command c)
    with Cons show ?thesis by (cases "c = ''kill''") auto
  qed
qed

text \<open>
  C7.  Every handler's loop takes, in each pass, either a packet or a command.  If a
  handler is blocked in its \<open>select\<close> after the inputs \<open>ins\<close>, then receiving \<open>kill\<close>
  next makes the loop return, in the world it was waiting in; whatever comes after
  the command is not processed.
\<close>

theorem handlers_return_on_kill:
  assumes "h \<in> set (handlers ev)" and "h w ins = Waiting w'"
  shows "h w (ins @ Command ''kill'' # rest) = Returned w'"
proof -
  from assms(1) obtain body where "h = handlerLoop body"
    by (auto simp: handlers_def handler_defs)
  with assms(2) show ?thesis by (simp add: handlerLoop_kill)
qed

theorem handlers_return_on_kill_witness:
  "PingEventHandler \<in> set (handlers plainEnv)
   \<and> PingEventHandler emptyWorld [Packet pingPacket]
       = Waiting (onRoom (\<lambda>r. sendPing r 1) emptyWorld)
   \<and> PingEventHandler emptyWorld [Packet pingPacket, Command ''kill'', Packet pingPacket]
       = Returned (onRoom (\<lambda>r. sendPing r 1) emptyWorld)"
proof -
  have a: "PingEventHandler \<in> set (handlers plainEnv)" by (simp add: handlers_def)
  have b: "PingEventHandler emptyWorld [Packet pingPacket]
       = Waiting (onRoom (\<lambda>r. sendPing r 1) emptyWorld)"
    by (simp add: PingEventHandler_def PingEventHandler_packet_def sample_defs decode_defs)
  from handlers_return_on_kill [OF a b, of "[Packet pingPacket]"] a b show ?thesis by simp
qed

text \<open>
  C9.  The claim is that \<open>MessageLogHandler\<close> reports an error of the message-log store
  on the error channel.  The code drops it: with a store that fails, the store call
  for the sample send-event returns the error, and the handler's pass ends with
  \<open>continue\<close> in the unchanged world, its error channel still empty.  The sibling
  \<open>SeenRecordHandler\<close>, on the same packet and a failing seen-store, sends the error
  and returns.
\<close>

theorem MessageLogHandler_drops_store_error:
  "prepareMsgLogEvent (GetMessagePayload helloPacket) = Inr (''m1'', helloRecord)
   \<and> storeMsgLogEvent (room faultyLogWorld) ''m1'' helloRecord
       = (Some diskFull, room faultyLogWorld)
   \<and> MessageLogHandler_packet faultyLogWorld helloPacket = Continue faultyLogWorld
   \<and> errChan (room faultyLogWorld) = []
   \<and> SeenRecordHandler_packet faultySeenWorld helloPacket
       = Return (onRoom (\<lambda>r. sendErr r diskFull) faultySeenWorld)"
  by (simp add: MessageLogHandler_packet_def SeenRecordHandler_packet_def
      GetMessagePayload_def prepareMsgLogEvent_def helloPacket_def helloRecord_def
      faultyLogWorld_def faultySeenWorld_def sample_defs decode_defs room_defs)

text \<open>What the join handler does with a join: a join-event with an empty name is
  skipped; any other join-event, and every nick-event with empty \<open>from\<close>, clears the
  user, and announces them unless they were pending leave.\<close>

lemma JoinEventHandler_join:
  assumes "joinUser p = Some U"
  shows "JoinEventHandler_packet w p =
     (if U = [] \<and> pkt_Type p = JoinEventType then Continue w
      else Continue (onRoom (\<lambda>r. joined r U) w))"
  using assms
  by (auto simp: JoinEventHandler_packet_def joinUser_def joined_def Let_def
      split: if_splits sum.splits option.splits)

lemma joined_pending:
  "isUserLeaving r U \<Longrightarrow> joined r U = clearUserLeaving r U"
  by (simp add: joined_def)

lemma joined_present:
  "\<not> isUserLeaving r U \<Longrightarrow> joined r U = SendText r (joinedText U) []"
  by (simp add: joined_def isUserLeaving_def clearUserLeaving_def SendText_def)

text \<open>
  C6.  The claim is that an empty user identity is ignored by \<open>JoinEventHandler\<close>: no
  announcement, no change of the leaving-set.  The join-event branch does that.  The
  nick-event branch has no such test: a nick-event with empty \<open>from\<close> and empty \<open>to\<close>
  is announced as a join when the empty name is not pending leave, and removes the
  empty name from the leaving-set when it is.
\<close>

theorem JoinEventHandler_empty_nick_not_ignored:
  "JoinEventHandler_packet emptyWorld emptyNick
     = Continue (onRoom (\<lambda>r. SendText r ''<  joined the room. >'' []) emptyWorld)
   \<and> JoinEventHandler_packet emptyLeavingWorld emptyNick = Continue emptyWorld
   \<and> JoinEventHandler_packet emptyWorld emptyJoin = Continue emptyWorld
   \<and> JoinEventHandler_packet emptyLeavingWorld emptyJoin = Continue emptyLeavingWorld"
  by (simp add: JoinEventHandler_packet_def GetNickEventPayload_def
      GetPresenceEventPayload_def joinedText_def emptyNick_def emptyJoin_def
      emptyLeavingWorld_def Let_def sample_defs decode_defs room_defs)

section \<open>Presence debounce\<close>

subsection \<open>Announcement texts\<close>

lemma leftText_inj [simp]: "leftText u = leftText v \<longleftrightarrow> u = v"
  by (simp add: leftText_def)

lemma joinedText_neq_leftText [simp]: "joinedText u \<noteq> leftText v"
proof
  assume "joinedText u = leftText v"
  then have "(u @ '' joined'') @ '' the room. >'' = (v @ '' left'') @ '' the room. >''"
    by (simp add: joinedText_def leftText_def)
  then have "u @ '' joined'' = v @ '' left''" by (simp only: append_same_eq)
  then have "last (u @ '' joined'') = last (v @ '' left'')" by simp
  then show False by simp
qed

subsection \<open>One pass of the part handler and of the join handler\<close>

lemma PartEventHandler_pass:
  assumes "afterPass (PartEventHandler_packet w p) = Inr w1"
  shows "(partUser p = None \<and> w1 = w)
       \<or> (\<exists>u. partUser p = Some u \<and> joinUser p = None
              \<and> w1 = go_partTimer (onRoom (\<lambda>r. setUserLeaving r u) w) u)"
  using assms
  by (auto simp: PartEventHandler_packet_def partUser_def joinUser_def afterPass_def Let_def
      split: if_splits sum.splits option.splits)

lemma JoinEventHandler_pass:
  assumes "afterPass (JoinEventHandler_packet w p) = Inr w1"
  shows "(joinUser p = None \<and> w1 = w)
       \<or> (joinUser p = Some [] \<and> pkt_Type p = JoinEventType \<and> w1 = w)
       \<or> (\<exists>u. joinUser p = Some u \<and> partUser p = None \<and> (u \<noteq> [] \<or> pkt_Type p = NickEventType)
              \<and> w1 = onRoom (\<lambda>r. joined r u) w)"
  using assms
  by (auto simp: JoinEventHandler_packet_def partUser_def joinUser_def afterPass_def joined_def Let_def
      split: if_splits sum.splits option.splits)

lemma step_Deliver:
  assumes "step w (Deliver p) = Inr w'"
  shows "(partUser p = None \<and> joinUser p = None \<and> w' = w)
       \<or> (\<exists>u. partUser p = Some u \<and> joinUser p = None
              \<and> w' = go_partTimer (onRoom (\<lambda>r. setUserLeaving r u) w) u)
       \<or> (partUser p = None \<and> joinUser p = Some [] \<and> pkt_Type p = JoinEventType \<and> w' = w)
       \<or> (\<exists>u. partUser p = None \<and> joinUser p = Some u \<and> (u \<noteq> [] \<or> pkt_Type p = NickEventType)
              \<and> w' = onRoom (\<lambda>r. joined r u) w)"
proof -
  from assms obtain w1 where a: "afterPass (PartEventHandler_packet w p) = Inr w1"
    and b: "afterPass (JoinEventHandler_packet w1 p) = Inr w'"
    by (cases "afterPass (PartEventHandler_packet w p)") simp_all
  from PartEventHandler_pass [OF a] show ?thesis
  proof
    assume n: "partUser p = None \<and> w1 = w"
    then have b': "afterPass (JoinEventHandler_packet w p) = Inr w'" using b by simp
    from JoinEventHandler_pass [OF b'] n show ?thesis by blast
  next
    assume "\<exists>u. partUser p = Some u \<and> joinUser p = None
              \<and> w1 = go_partTimer (onRoom (\<lambda>r. setUserLeaving r u) w) u"
    then obtain u where u: "partUser p = Some u" "joinUser p = None"
      "w1 = go_partTimer (onRoom (\<lambda>r. setUserLeaving r u) w) u" by blast
    from JoinEventHandler_pass [OF b] u(1,2) have "w' = w1" by auto
    with u show ?thesis by blast
  qed
qed

lemma step_Fire:
  "step w (Fire k) = Inr w' \<Longrightarrow>
     w' = w \<or> (\<exists>u t. timers w k = Some (u, t) \<and> t \<le> now w
                  \<and> w' = w\<lparr>room := partTimer (room w) u, timers := (timers w)(k := None)\<rparr>)"
  by (auto split: option.splits if_splits)

lemma step_Elapse: "step w (Elapse d) = Inr w' \<Longrightarrow> w' = w\<lparr>now := now w + d\<rparr>"
  by auto

lemma run_append:
  "run w (es @ fs) = (case run w es of Inl x \<Rightarrow> Inl x | Inr w1 \<Rightarrow> run w1 fs)"
  by (induction es arbitrary: w) (auto split: sum.splits)

lemma run_Cons:
  "run w (e # es) = Inr w' \<Longrightarrow> \<exists>w1. step w e = Inr w1 \<and> run w1 es = Inr w'"
  by (cases "step w e") simp_all

lemma run_invariant:
  assumes "run w es = Inr w'" and "I w"
    and "\<And>w1 e w2. I w1 \<Longrightarrow> e \<in> set es \<Longrightarrow> step w1 e = Inr w2 \<Longrightarrow> I w2"
  shows "I w'"
  using assms
proof (induction es arbitrary: w)
  case Nil
  then show ?case by simp
next
  case (Cons e es)
  from run_Cons [OF Cons.prems(1)] obtain w1
    where s: "step w e = Inr w1" and r: "run w1 es = Inr w'" by blast
  have "e \<in> set (e # es)" by simp
  with Cons.prems(2) have i1: "I w1" using s by (rule Cons.prems(3))
  show ?case
  proof (rule Cons.IH [OF r i1])
    fix wa ea wb
    assume "I wa" "ea \<in> set es" "step wa ea = Inr wb"
    then show "I wb" by (intro Cons.prems(3) [of wa ea wb]) simp_all
  qed
qed

subsection \<open>What a step does to the leaving-set, the confirmations and the announcements\<close>

lemma usersLeaving_joined [simp]: "usersLeaving (joined r u) = usersLeaving r - {u}"
  by (simp add: joined_def room_defs)

lemma usersLeaving_partTimer: "usersLeaving (partTimer r u) \<subseteq> usersLeaving r"
  by (auto simp: partTimer_def room_defs)

lemma partTimer_idle: "U \<notin> usersLeaving r \<or> U = [] \<Longrightarrow> partTimer r U = r"
  by (auto simp: partTimer_def room_defs)

text \<open>Once the user is out of the leaving-set, only a part-event for them brings them back.\<close>

lemma step_keeps_cleared:
  assumes "step w e = Inr w'" and "U \<notin> usersLeaving (room w)"
    and "\<forall>q. e = Deliver q \<longrightarrow> partUser q \<noteq> Some U"
  shows "U \<notin> usersLeaving (room w')"
proof (cases e)
  case (Deliver q)
  with assms(1) have s: "step w (Deliver q) = Inr w'" by (simp only:)
  from assms(3) Deliver have "partUser q \<noteq> Some U" by blast
  with step_Deliver [OF s] assms(2) show ?thesis
    by (auto simp: go_partTimer_def room_defs)
next
  case (Elapse d)
  with assms(1) have "step w (Elapse d) = Inr w'" by (simp only:)
  from step_Elapse [OF this] assms(2) show ?thesis by simp
next
  case (Fire k)
  with assms(1) have "step w (Fire k) = Inr w'" by (simp only:)
  from step_Fire [OF this] have "usersLeaving (room w') \<subseteq> usersLeaving (room w)"
  proof
    assume "w' = w"
    then show ?thesis by simp
  next
    assume "\<exists>u t. timers w k = Some (u, t) \<and> t \<le> now w
                  \<and> w' = w\<lparr>room := partTimer (room w) u, timers := (timers w)(k := None)\<rparr>"
    then obtain u where "room w' = partTimer (room w) u" by auto
    then show ?thesis by (simp add: usersLeaving_partTimer)
  qed
  with assms(2) show ?thesis by blast
qed

lemma step_ownTimer:
  assumes "step w e = Inr w'" and "ownTimer U k t w"
  shows "ownTimer U k t w'"
proof (cases e)
  case (Deliver q)
  with assms(1) have s: "step w (Deliver q) = Inr w'" by (simp only:)
  from step_Deliver [OF s] assms(2) show ?thesis
    by (auto simp: ownTimer_def go_partTimer_def room_defs)
next
  case (Elapse d)
  with assms(1) have "step w (Elapse d) = Inr w'" by (simp only:)
  from step_Elapse [OF this] assms(2) show ?thesis by (simp add: ownTimer_def)
next
  case (Fire i)
  with assms(1) have "step w (Fire i) = Inr w'" by (simp only:)
  from step_Fire [OF this] assms(2) show ?thesis
    by (auto simp: ownTimer_def split: if_splits)
qed

lemma run_append_Inr:
  "run w (es @ fs) = Inr w' \<Longrightarrow> \<exists>w1. run w es = Inr w1 \<and> run w1 fs = Inr w'"
  by (cases "run w es") (simp_all add: run_append)

lemma Fire_own_idle:
  assumes "ownTimer U k t w" and "partTimer (room w) U = room w"
  shows "\<exists>w''. step w (Fire k) = Inr w'' \<and> room w'' = room w"
proof (cases "timers w k")
  case None
  then show ?thesis by simp
next
  case (Some a)
  with assms(1) have "timers w k = Some (U, t)" by (simp add: ownTimer_def)
  with assms(2) show ?thesis by simp
qed

text \<open>
  C1, amended.  For every user \<open>U\<close>: when a part-event for \<open>U\<close> is followed by a
  join-event for \<open>U\<close> (or a nick-event with empty \<open>from\<close> whose new name is \<open>U\<close>) and
  no further part-event for \<open>U\<close> is handled after that join, the confirmation started
  by the part-event does nothing when it fires: the Room is as before, so no leave
  announcement is sent.  The leaving state is read when the timer fires; for a
  non-empty \<open>U\<close> the join has removed \<open>U\<close> from the leaving-set.  Other events may
  lie between the part and the join, and any event but a part-event for \<open>U\<close> after the
  join.
\<close>

theorem rejoin_silences_confirmation:
  assumes p: "partUser p = Some U" and j: "joinUser j = Some U"
    and es2: "\<forall>q. Deliver q \<in> set es2 \<longrightarrow> partUser q \<noteq> Some U"
    and run: "run w (Deliver p # es1 @ Deliver j # es2) = Inr w'"
  shows "partTimer (room w') U = room w'
       \<and> (\<exists>w''. step w' (Fire (nextTimer w)) = Inr w'' \<and> room w'' = room w')
       \<and> (U \<noteq> [] \<longrightarrow> \<not> isUserLeaving (room w') U)"
proof -
  from run_Cons [OF run] obtain wa where a: "step w (Deliver p) = Inr wa"
    and ra: "run wa (es1 @ Deliver j # es2) = Inr w'" by blast
  from run_append_Inr [OF ra] obtain wb where rb: "run wa es1 = Inr wb"
    and rb': "run wb (Deliver j # es2) = Inr w'" by blast
  from run_Cons [OF rb'] obtain wc where c: "step wb (Deliver j) = Inr wc"
    and rc: "run wc es2 = Inr w'" by blast
  have wa: "wa = go_partTimer (onRoom (\<lambda>r. setUserLeaving r U) w) U"
    using step_Deliver [OF a] p by auto
  have own_a: "ownTimer U (nextTimer w) (now w + partDelay) wa"
    by (simp add: wa ownTimer_def go_partTimer_def onRoom_def)
  have own_b: "ownTimer U (nextTimer w) (now w + partDelay) wb"
    using rb own_a by (rule run_invariant) (rule step_ownTimer)
  have own_c: "ownTimer U (nextTimer w) (now w + partDelay) wc"
    using c own_b by (rule step_ownTimer)
  have own: "ownTimer U (nextTimer w) (now w + partDelay) w'"
    using rc own_c by (rule run_invariant) (rule step_ownTimer)
  have idle: "U \<notin> usersLeaving (room w') \<or> U = []"
  proof (cases "U = []")
    case True
    then show ?thesis by simp
  next
    case False
    have "U \<notin> usersLeaving (room wc)"
      using step_Deliver [OF c] j False by (auto simp: onRoom_def)
    with rc have "U \<notin> usersLeaving (room w')"
    proof (rule run_invariant)
      fix w1 e w2
      assume 1: "U \<notin> usersLeaving (room w1)" and 2: "e \<in> set es2" and 3: "step w1 e = Inr w2"
      from 2 es2 have "\<forall>q. e = Deliver q \<longrightarrow> partUser q \<noteq> Some U" by blast
      with 3 1 show "U \<notin> usersLeaving (room w2)" by (rule step_keeps_cleared)
    qed
    then show ?thesis ..
  qed
  then have t: "partTimer (room w') U = room w'" by (rule partTimer_idle)
  from Fire_own_idle [OF own t] t idle show ?thesis unfolding isUserLeaving_def by blast
qed

lemmas presence_defs = afterPass_def PartEventHandler_packet_def JoinEventHandler_packet_def
  GetPresenceEventPayload_def GetNickEventPayload_def go_partTimer_def partTimer_def
  partDelay_def leftText_def joinedText_def partUser_def joinUser_def

lemma partUser_partAlice: "partUser partAlice = Some ''alice''"
  by (simp add: presence_defs sample_defs decode_defs)

lemma joinUser_joinAlice: "joinUser joinAlice = Some ''alice''"
  by (simp add: presence_defs sample_defs decode_defs)

lemma partUser_joinAlice: "partUser joinAlice = None"
  by (simp add: presence_defs sample_defs decode_defs)

lemma joinUser_partAlice: "joinUser partAlice = None"
  by (simp add: presence_defs sample_defs decode_defs)

lemma step_partAlice:
  "step w (Deliver partAlice) = Inr (go_partTimer (onRoom (\<lambda>r. setUserLeaving r ''alice'') w) ''alice'')"
  by (simp add: afterPass_def PartEventHandler_packet_def JoinEventHandler_packet_def
      GetPresenceEventPayload_def Let_def sample_defs decode_defs)

lemma step_joinAlice:
  "step w (Deliver joinAlice) = Inr (onRoom (\<lambda>r. joined r ''alice'') w)"
  by (simp add: afterPass_def PartEventHandler_packet_def JoinEventHandler_packet_def
      GetPresenceEventPayload_def joined_def Let_def sample_defs decode_defs)

text \<open>The theorem at alice: she parts at time 0, joins at time 1, and at time 301 the
  confirmation of the part is due and fires without a change to the Room.\<close>

theorem rejoin_silences_confirmation_witness:
  "partUser partAlice = Some ''alice'' \<and> joinUser joinAlice = Some ''alice''
   \<and> run emptyWorld (Deliver partAlice # [Elapse 1] @ Deliver joinAlice # [Elapse 300])
       = Inr aliceBack
   \<and> timers aliceBack (nextTimer emptyWorld) = Some (''alice'', 300)
   \<and> 300 \<le> now aliceBack
   \<and> partTimer (room aliceBack) ''alice'' = room aliceBack
   \<and> (\<exists>w''. step aliceBack (Fire (nextTimer emptyWorld)) = Inr w''
             \<and> room w'' = room aliceBack)
   \<and> \<not> isUserLeaving (room aliceBack) ''alice''"
proof -
  have r: "run emptyWorld (Deliver partAlice # [Elapse 1] @ Deliver joinAlice # [Elapse 300])
       = Inr aliceBack"
    by (simp add: step_partAlice step_joinAlice joined_def go_partTimer_def partDelay_def
        room_defs aliceBack_def emptyWorld_def emptyRoom_def del: step.simps(1))
  have q: "\<forall>q. Deliver q \<in> set [Elapse 300] \<longrightarrow> partUser q \<noteq> Some ''alice''" by simp
  have t: "timers aliceBack (nextTimer emptyWorld) = Some (''alice'', 300)"
    "300 \<le> now aliceBack"
    by (simp_all add: aliceBack_def emptyWorld_def)
  from rejoin_silences_confirmation [OF partUser_partAlice joinUser_joinAlice q r]
    partUser_partAlice joinUser_joinAlice r t
  show ?thesis by simp
qed

text \<open>
  C1, as stated, lets nothing but the join decide: a part-event followed by a join
  before the timer fires is never announced.  The timers are not tied to the part
  they were started for.  Alice parts at 0 and joins at 1; she parts again at 299, and
  at 300 the confirmation of the first part fires, finds her pending leave and
  announces her; she joins at 301.  Each part was followed by a join within two
  seconds, and a leave announcement was sent.
\<close>

theorem stale_confirmation_announces_rejoined_user:
  "partUser partAlice = Some ''alice'' \<and> joinUser joinAlice = Some ''alice''
   \<and> map_sum id (sent \<circ> room)
       (run emptyWorld (Deliver partAlice # [Elapse 1] @ Deliver joinAlice #
          [Elapse 298, Deliver partAlice, Elapse 1, Fire 0, Elapse 1, Deliver joinAlice]))
       = Inr [(''< alice left the room. >'', []), (''< alice joined the room. >'', [])]"
  by (simp add: partUser_partAlice joinUser_joinAlice step_partAlice step_joinAlice
      joined_def go_partTimer_def partDelay_def partTimer_def leftText_def joinedText_def
      room_defs emptyWorld_def emptyRoom_def del: step.simps(1))

lemma sent_joined:
  "sent (joined r u) = (if u \<in> usersLeaving r then sent r else sent r @ [(joinedText u, [])])"
  by (simp add: joined_def room_defs)

lemma usersLeaving_partTimer_eq:
  "usersLeaving (partTimer r u) = (if u = [] then usersLeaving r else usersLeaving r - {u})"
  by (auto simp: partTimer_def room_defs)

lemma sent_partTimer:
  "sent (partTimer r u) =
     (if u \<in> usersLeaving r \<and> u \<noteq> [] then sent r @ [(leftText u, [])] else sent r)"
  by (simp add: partTimer_def room_defs)

lemma awaiting_part:
  assumes "awaiting U k t c w" and "u \<noteq> U"
  shows "awaiting U k t c (go_partTimer (onRoom (\<lambda>r. setUserLeaving r u) w) u)"
  using assms by (auto simp: awaiting_def go_partTimer_def room_defs)

lemma awaiting_join:
  assumes "awaiting U k t c w" and "u \<noteq> U"
  shows "awaiting U k t c (onRoom (\<lambda>r. joined r u) w)"
  using assms by (auto simp: awaiting_def onRoom_def sent_joined)

lemma awaiting_fire:
  assumes "awaiting U k t c w" and "i \<noteq> k" and "timers w i = Some (u, s)"
  shows "awaiting U k t c (w\<lparr>room := partTimer (room w) u, timers := (timers w)(i := None)\<rparr>)"
proof -
  from assms have "u \<noteq> U" by (auto simp: awaiting_def)
  with assms show ?thesis
    by (auto simp: awaiting_def usersLeaving_partTimer_eq sent_partTimer)
qed

lemma step_awaiting:
  assumes s: "step w e = Inr w'" and a: "awaiting U k t c w"
    and q: "\<forall>q. e = Deliver q \<longrightarrow> partUser q \<noteq> Some U \<and> joinUser q \<noteq> Some U"
    and f: "e \<noteq> Fire k"
  shows "awaiting U k t c w'"
proof (cases e)
  case (Deliver p)
  with s have s': "step w (Deliver p) = Inr w'" by (simp only:)
  from q Deliver have n: "partUser p \<noteq> Some U" "joinUser p \<noteq> Some U" by blast+
  from step_Deliver [OF s'] consider "w' = w"
    | u where "partUser p = Some u" "w' = go_partTimer (onRoom (\<lambda>r. setUserLeaving r u) w) u"
    | u where "joinUser p = Some u" "w' = onRoom (\<lambda>r. joined r u) w"
    by blast
  then show ?thesis
  proof cases
    case 1
    with a show ?thesis by simp
  next
    case 2
    with n have "u \<noteq> U" by auto
    with a 2 show ?thesis by (simp add: awaiting_part)
  next
    case 3
    with n have "u \<noteq> U" by auto
    with a 3 show ?thesis by (simp add: awaiting_join)
  qed
next
  case (Elapse d)
  with s have "step w (Elapse d) = Inr w'" by (simp only:)
  from step_Elapse [OF this] a show ?thesis by (simp add: awaiting_def)
next
  case (Fire i)
  with s have s': "step w (Fire i) = Inr w'" by (simp only:)
  from f Fire have ik: "i \<noteq> k" by simp
  from step_Fire [OF s'] show ?thesis
  proof
    assume "w' = w"
    with a show ?thesis by simp
  next
    assume "\<exists>u t. timers w i = Some (u, t) \<and> t \<le> now w
       \<and> w' = w\<lparr>room := partTimer (room w) u, timers := (timers w)(i := None)\<rparr>"
    then obtain u s where "timers w i = Some (u, s)"
      and w': "w' = w\<lparr>room := partTimer (room w) u, timers := (timers w)(i := None)\<rparr>"
      by blast
    with a ik show ?thesis unfolding w' by (intro awaiting_fire)
  qed
qed

text \<open>
  C5, amended.  For every user \<open>U\<close> with a non-empty name: take a part-event for \<open>U\<close>
  that is handled while no earlier confirmation for \<open>U\<close> is still asleep, and after
  which no join or nick-in event and no other part-event for \<open>U\<close> is handled.  Then no
  leave announcement for \<open>U\<close> is sent before its confirmation fires; the confirmation
  sleeps until five minutes after the part-event and cannot fire earlier; when it
  fires it finds \<open>U\<close> pending leave in the Room as it is then, sends the one
  announcement \<open>< U left the room. >\<close>, and removes \<open>U\<close> from the leaving-set.
\<close>

theorem lone_part_announced_once:
  assumes p: "partUser p = Some U" and ne: "U \<noteq> []"
    and fresh: "\<forall>i u s. timers w i = Some (u, s) \<longrightarrow> u \<noteq> U"
    and quiet: "\<forall>q. Deliver q \<in> set es \<longrightarrow> partUser q \<noteq> Some U \<and> joinUser q \<noteq> Some U"
    and nofire: "Fire (nextTimer w) \<notin> set es"
    and run: "run w (Deliver p # es) = Inr w1"
  shows "count_list (sent (room w1)) (leftText U, []) = count_list (sent (room w)) (leftText U, [])
       \<and> timers w1 (nextTimer w) = Some (U, now w + partDelay)
       \<and> (now w1 < now w + partDelay \<longrightarrow> step w1 (Fire (nextTimer w)) = Inr w1)
       \<and> (now w + partDelay \<le> now w1 \<longrightarrow>
            (\<exists>w2. step w1 (Fire (nextTimer w)) = Inr w2
               \<and> isUserLeaving (room w1) U
               \<and> sent (room w2) = sent (room w1) @ [(leftText U, [])]
               \<and> usersLeaving (room w2) = usersLeaving (room w1) - {U}
               \<and> count_list (sent (room w2)) (leftText U, [])
                   = count_list (sent (room w)) (leftText U, []) + 1))"
proof -
  let ?k = "nextTimer w" and ?t = "now w + partDelay"
  let ?c = "count_list (sent (room w)) (leftText U, [])"
  from run_Cons [OF run] obtain wa where a: "step w (Deliver p) = Inr wa"
    and ra: "run wa es = Inr w1" by blast
  have wa: "wa = go_partTimer (onRoom (\<lambda>r. setUserLeaving r U) w) U"
    using step_Deliver [OF a] p by auto
  have "awaiting U ?k ?t ?c wa"
    using fresh by (auto simp: wa awaiting_def go_partTimer_def room_defs)
  with ra have aw: "awaiting U ?k ?t ?c w1"
  proof (rule run_invariant)
    fix wx e wy
    assume 1: "awaiting U ?k ?t ?c wx" and 2: "e \<in> set es" and 3: "step wx e = Inr wy"
    from 2 quiet have "\<forall>q. e = Deliver q \<longrightarrow> partUser q \<noteq> Some U \<and> joinUser q \<noteq> Some U"
      by blast
    moreover from 2 nofire have "e \<noteq> Fire ?k" by blast
    ultimately show "awaiting U ?k ?t ?c wy" using 3 1 by (intro step_awaiting [of wx e wy])
  qed
  then have c: "count_list (sent (room w1)) (leftText U, []) = ?c"
    and t: "timers w1 ?k = Some (U, ?t)" and l: "U \<in> usersLeaving (room w1)"
    by (simp_all add: awaiting_def)
  have early: "now w1 < ?t \<longrightarrow> step w1 (Fire ?k) = Inr w1"
    using t by simp
  have late: "?t \<le> now w1 \<longrightarrow>
            (\<exists>w2. step w1 (Fire ?k) = Inr w2
               \<and> isUserLeaving (room w1) U
               \<and> sent (room w2) = sent (room w1) @ [(leftText U, [])]
               \<and> usersLeaving (room w2) = usersLeaving (room w1) - {U}
               \<and> count_list (sent (room w2)) (leftText U, []) = ?c + 1)"
    using t l ne c by (simp add: sent_partTimer usersLeaving_partTimer_eq isUserLeaving_def)
  from c t early late show ?thesis by blast
qed

text \<open>The theorem at alice, who parts at time 0: at time 299 her confirmation cannot
  fire, at time 300 it fires and announces her.\<close>

theorem lone_part_announced_once_witness:
  "partUser partAlice = Some ''alice'' \<and> ''alice'' \<noteq> []
   \<and> run emptyWorld (Deliver partAlice # [Elapse 299]) = Inr (aliceLeaving 299)
   \<and> now (aliceLeaving 299) < now emptyWorld + partDelay
   \<and> step (aliceLeaving 299) (Fire (nextTimer emptyWorld)) = Inr (aliceLeaving 299)
   \<and> run emptyWorld (Deliver partAlice # [Elapse 300]) = Inr (aliceLeaving 300)
   \<and> now emptyWorld + partDelay \<le> now (aliceLeaving 300)
   \<and> count_list (sent (room (aliceLeaving 300))) (leftText ''alice'', []) = 0
   \<and> (\<exists>w2. step (aliceLeaving 300) (Fire (nextTimer emptyWorld)) = Inr w2
          \<and> isUserLeaving (room (aliceLeaving 300)) ''alice''
          \<and> sent (room w2) = sent (room (aliceLeaving 300)) @ [(leftText ''alice'', [])]
          \<and> usersLeaving (room w2) = usersLeaving (room (aliceLeaving 300)) - {''alice''}
          \<and> count_list (sent (room w2)) (leftText ''alice'', [])
              = count_list (sent (room emptyWorld)) (leftText ''alice'', []) + 1)"
proof -
  have r: "run emptyWorld (Deliver partAlice # [Elapse t]) = Inr (aliceLeaving t)" for t
    by (simp add: step_partAlice go_partTimer_def partDelay_def room_defs aliceLeaving_def
        emptyWorld_def emptyRoom_def del: step.simps(1))
  have ne: "''alice'' \<noteq> []" by simp
  have fresh: "\<forall>i u s. timers emptyWorld i = Some (u, s) \<longrightarrow> u \<noteq> ''alice''"
    by (simp add: emptyWorld_def)
  have quiet: "\<forall>q. Deliver q \<in> set [Elapse t] \<longrightarrow>
      partUser q \<noteq> Some ''alice'' \<and> joinUser q \<noteq> Some ''alice''" for t
    by simp
  have nofire: "Fire (nextTimer emptyWorld) \<notin> set [Elapse t]" for t by simp
  have early: "now (aliceLeaving 299) < now emptyWorld + partDelay"
    and late: "now emptyWorld + partDelay \<le> now (aliceLeaving 300)"
    by (simp_all add: aliceLeaving_def emptyWorld_def partDelay_def)
  from lone_part_announced_once [OF partUser_partAlice ne fresh quiet nofire r, of 299]
    lone_part_announced_once [OF partUser_partAlice ne fresh quiet nofire r, of 300]
    partUser_partAlice r early late
  show ?thesis
    by (simp add: emptyWorld_def emptyRoom_def del: step.simps)
qed

text \<open>
  C5, as stated, has the announcement come only after the five minutes of the
  part-event have elapsed.  A confirmation left over from an earlier part does not
  wait for them: alice parts at 0, joins at 1 and parts again at 299, with no join
  after that; the confirmation of the first part fires at 300 and announces her, one
  second after the part-event and 299 seconds before its own confirmation is due.
\<close>

theorem stale_confirmation_announces_early:
  "partUser partAlice = Some ''alice''
   \<and> map_sum id now
       (run emptyWorld [Deliver partAlice, Elapse 1, Deliver joinAlice, Elapse 298]) = Inr 299
   \<and> map_sum id (sent \<circ> room)
       (run emptyWorld [Deliver partAlice, Elapse 1, Deliver joinAlice, Elapse 298,
          Deliver partAlice]) = Inr []
   \<and> map_sum id (sent \<circ> room)
       (run emptyWorld [Deliver partAlice, Elapse 1, Deliver joinAlice, Elapse 298,
          Deliver partAlice, Elapse 1, Fire 0]) = Inr [(''< alice left the room. >'', [])]
   \<and> map_sum id now
       (run emptyWorld [Deliver partAlice, Elapse 1, Deliver joinAlice, Elapse 298,
          Deliver partAlice, Elapse 1, Fire 0]) = Inr 300
   \<and> (300 :: nat) < 299 + partDelay"
  by (simp add: partUser_partAlice step_partAlice step_joinAlice
      joined_def go_partTimer_def partDelay_def partTimer_def leftText_def joinedText_def
      room_defs emptyWorld_def emptyRoom_def del: step.simps(1))

end
